theory Spec2Isabelle
  imports Main "HOL-Library.AList"
begin

section \<open>Data model of the multi-tab server (server/index.ts)\<close>

text \<open>
  Tab identifiers, connection handles, request identifiers and file paths. A tab
  identifier is the string that \<^verbatim>\<open>crypto.randomUUID()\<close> returned; a connection is
  the identity of a \<^verbatim>\<open>WebSocket\<close> object.
\<close>

type_synonym tab_id = string
type_synonym conn = nat
type_synonym req_id = string
type_synonym abort_signal = nat

datatype ready_state = CONNECTING | OPEN | CLOSING | CLOSED

text \<open>What the server reads from an \<^verbatim>\<open>AgentSession\<close>: the fields used by \<^verbatim>\<open>sendStateSync\<close>.\<close>

record AgentSession =
  sessionId :: string
  messages :: "string list"
  isStreaming :: bool
  model :: "string option"

record TabEntry =
  tabId :: tab_id
  name :: string
  session :: AgentSession

text \<open>\<^verbatim>\<open>SessionInfo\<close> of the storage collaborator; dates are kept as epoch milliseconds.\<close>

record SessionInfo =
  si_id :: string
  si_path :: string
  si_name :: "string option"
  si_cwd :: string
  si_created :: int
  si_modified :: int
  si_messageCount :: nat
  si_firstMessage :: string

text \<open>
  The captured variables of one call of \<^verbatim>\<open>createDialogPromise\<close>: the closures
  \<^verbatim>\<open>cleanup\<close>, \<^verbatim>\<open>onAbort\<close>, the timer callback and the stored
  \<^verbatim>\<open>resolve\<close>/\<^verbatim>\<open>reject\<close> pair all share them.
\<close>

datatype js_value = JUndefined | JNull | JBool bool | JStr string | JNum int

type_synonym response = "(string \<times> js_value) list"
type_synonym outcome = js_value

text \<open>
  \<^verbatim>\<open>parseResponse\<close> is one of the two arrow functions that the callers of
  \<^verbatim>\<open>createDialogPromise\<close> pass: the one of \<^verbatim>\<open>select\<close> and \<^verbatim>\<open>input\<close> reads
  \<^verbatim>\<open>value\<close>, the one of \<^verbatim>\<open>confirm\<close> reads \<^verbatim>\<open>confirmed\<close>.
\<close>

datatype parser = ParseValue | ParseConfirmed

datatype ui_request =
    SelectRequest string "string list" "nat option"
  | ConfirmRequest string "string option" "nat option"
  | InputRequest string "string option" "nat option"

record dialog =
  d_id :: req_id
  d_signal :: "abort_signal option"
  d_timeout :: "nat option"
  d_default :: outcome
  d_parse :: parser

datatype server_msg =
    TabsUpdate "(tab_id \<times> string) list"
  | StateSync tab_id "string list" bool "string option" string
  | SessionsList "SessionInfo list"
  | ExtensionUIRequest req_id ui_request
  | SessionEvent string
  | ExtensionError string

text \<open>
  Everything the server does to the outside world, in program order: a call of
  \<^verbatim>\<open>send\<close> on a socket, \<^verbatim>\<open>session.dispose()\<close> of a tab's session,
  \<^verbatim>\<open>fs.promises.unlink\<close>, and \<^verbatim>\<open>console.error\<close>.
\<close>

datatype effect =
    Send conn server_msg
  | Dispose tab_id
  | Unlink string
  | LogError string

record server =
  tabOrder :: "tab_id list"
  tabs :: "(tab_id \<times> TabEntry) list"
  clientActiveTab :: "conn \<rightharpoonup> tab_id"
  tabCounter :: nat
  clients :: "conn list"
  readyState :: "conn \<Rightarrow> ready_state"
  pendingExtensionRequests :: "req_id \<rightharpoonup> dialog"
  timers :: "dialog list"
  listeners :: "(abort_signal \<times> dialog) list"
  aborted :: "abort_signal list"
  resolutions :: "(dialog \<times> outcome) list"
  effects :: "effect list"

text \<open>
  \<^verbatim>\<open>tabs\<close> is a JavaScript \<^verbatim>\<open>Map\<close>, which iterates in insertion order: it is an
  association list where \<^verbatim>\<open>set\<close> is \<^const>\<open>AList.update\<close> (in place for an existing key,
  appended otherwise), \<^verbatim>\<open>delete\<close> is \<^const>\<open>AList.delete\<close>, \<^verbatim>\<open>get\<close> is
  \<^const>\<open>map_of\<close> and \<^verbatim>\<open>size\<close> is \<^const>\<open>length\<close>. \<^verbatim>\<open>wss.clients\<close> is a
  \<^verbatim>\<open>Set\<close>, iterated in insertion order: the list \<^const>\<open>clients\<close>.
\<close>

subsection \<open>JavaScript array primitives\<close>

text \<open>\<^verbatim>\<open>Array.prototype.indexOf\<close>: the first index, or -1.\<close>

fun indexOf :: "'a list \<Rightarrow> 'a \<Rightarrow> int" where
  "indexOf [] x = - 1"
| "indexOf (y # ys) x =
     (if y = x then 0 else (let i = indexOf ys x in if i < 0 then - 1 else i + 1))"

text \<open>\<^verbatim>\<open>arr[i]\<close>: \<^verbatim>\<open>undefined\<close> (here \<^const>\<open>None\<close>) out of range.\<close>

definition at_index :: "'a list \<Rightarrow> int \<Rightarrow> 'a option" where
  "at_index xs i = (if 0 \<le> i \<and> i < int (length xs) then Some (xs ! nat i) else None)"

text \<open>\<^verbatim>\<open>a ?? b\<close> on possibly undefined values.\<close>

definition nullish :: "'a option \<Rightarrow> 'a option \<Rightarrow> 'a option" where
  "nullish a b = (case a of Some v \<Rightarrow> Some v | None \<Rightarrow> b)"

text \<open>\<^verbatim>\<open>arr.splice(i, 1)\<close> for \<^verbatim>\<open>i \<ge> 0\<close>.\<close>

definition splice1 :: "'a list \<Rightarrow> int \<Rightarrow> 'a list" where
  "splice1 xs i = take (nat i) xs @ drop (nat i + 1) xs"

text \<open>Truthiness of a string that may be \<^verbatim>\<open>null\<close> or \<^verbatim>\<open>undefined\<close>.\<close>

definition truthy :: "string option \<Rightarrow> bool" where
  "truthy s = (case s of None \<Rightarrow> False | Some v \<Rightarrow> v \<noteq> [])"

subsection \<open>Broadcast router\<close>

definition send :: "conn \<Rightarrow> server_msg \<Rightarrow> server \<Rightarrow> server" where
  "send c msg st = st\<lparr>effects := effects st @ [Send c msg]\<rparr>"

definition getTabsList :: "server \<Rightarrow> (tab_id \<times> string) list" where
  "getTabsList st =
     List.map_filter (\<lambda>i. map_option (\<lambda>t. (tabId t, name t)) (map_of (tabs st) i)) (tabOrder st)"

definition broadcastAll :: "server_msg \<Rightarrow> server \<Rightarrow> server" where
  "broadcastAll msg st =
     fold (\<lambda>client s. if readyState s client = OPEN then send client msg s else s) (clients st) st"

definition broadcastToTabViewers :: "tab_id \<Rightarrow> server_msg \<Rightarrow> server \<Rightarrow> server" where
  "broadcastToTabViewers tid msg st =
     fold (\<lambda>client s.
            if readyState s client = OPEN \<and> clientActiveTab s client = Some tid
            then send client msg s else s) (clients st) st"

definition broadcastTabsList :: "server \<Rightarrow> server" where
  "broadcastTabsList st = broadcastAll (TabsUpdate (getTabsList st)) st"

definition stateSyncMsg :: "TabEntry \<Rightarrow> server_msg" where
  "stateSyncMsg entry =
     StateSync (tabId entry) (messages (session entry)) (isStreaming (session entry))
       (model (session entry)) (sessionId (session entry))"

definition sendStateSync :: "conn \<Rightarrow> TabEntry \<Rightarrow> server \<Rightarrow> server" where
  "sendStateSync ws entry st = send ws (stateSyncMsg entry) st"

text \<open>
  The callback that \<^verbatim>\<open>createTab\<close> registers with \<^verbatim>\<open>session.subscribe\<close> for the tab
  \<open>tid\<close>: every event of that tab's session goes through the tab-scoped broadcast.
\<close>

definition sessionEvent :: "tab_id \<Rightarrow> string \<Rightarrow> server \<Rightarrow> server" where
  "sessionEvent tid event st = broadcastToTabViewers tid (SessionEvent event) st"

subsection \<open>Tab registry\<close>

text \<open>
  What the collaborators hand to one call of \<^verbatim>\<open>createTab\<close>: the UUID, the session
  manager (its stored session name) or the error it throws, the session that
  \<^verbatim>\<open>createAgentSession\<close> resolves to or the error it rejects with, and the error of
  \<^verbatim>\<open>bindExtensions\<close> if it rejects.
\<close>

record runtime =
  rt_uuid :: tab_id
  rt_sessionManager :: "string + string option"
  rt_createAgentSession :: "string + AgentSession"
  rt_bindExtensions :: "string option"

text \<open>The decimal rendering of the counter inside the template string.\<close>

fun digits :: "nat \<Rightarrow> string" where
  "digits n =
     (if n < 10 then [char_of (48 + n)] else digits (n div 10) @ [char_of (48 + n mod 10)])"

declare digits.simps [simp del]

definition defaultName :: "nat \<Rightarrow> string" where
  "defaultName n = ''Session '' @ digits n"

definition displayNameOf :: "string option \<Rightarrow> string option \<Rightarrow> string option \<Rightarrow> nat \<Rightarrow> string" where
  "displayNameOf nm sessionPath storedName counter =
     (case nm of Some n \<Rightarrow> n
      | None \<Rightarrow>
          (if truthy sessionPath
           then (case storedName of Some s \<Rightarrow> s | None \<Rightarrow> defaultName counter)
           else defaultName counter))"

definition createTab ::
  "runtime \<Rightarrow> string option \<Rightarrow> string option \<Rightarrow> server \<Rightarrow> (string + TabEntry) \<times> server" where
  "createTab rt nm sessionPath st =
     (let st1 = st\<lparr>tabCounter := tabCounter st + 1\<rparr> in
      case rt_sessionManager rt of
        Inl err \<Rightarrow> (Inl err, st1)
      | Inr storedName \<Rightarrow>
          (case rt_createAgentSession rt of
             Inl err \<Rightarrow> (Inl err, st1)
           | Inr sess \<Rightarrow>
               (let displayName = displayNameOf nm sessionPath storedName (tabCounter st1) in
                case rt_bindExtensions rt of
                  Some err \<Rightarrow> (Inl err, st1)
                | None \<Rightarrow>
                    (let entry = \<lparr>tabId = rt_uuid rt, name = displayName, session = sess\<rparr> in
                     (Inr entry,
                      st1\<lparr>tabs := AList.update (rt_uuid rt) entry (tabs st1),
                          tabOrder := tabOrder st1 @ [rt_uuid rt]\<rparr>)))))"

definition closeTab :: "tab_id \<Rightarrow> server \<Rightarrow> tab_id option \<times> server" where
  "closeTab tid st =
     (case map_of (tabs st) tid of
        None \<Rightarrow> (None, st)
      | Some entry \<Rightarrow>
          if length (tabs st) \<le> 1 then (Some tid, st)
          else
            (let idx = indexOf (tabOrder st) tid;
                 remainingOrder =
                   filter (\<lambda>i. i \<noteq> tid \<and> map_of (tabs st) i \<noteq> None) (tabOrder st);
                 replacementId =
                   nullish (at_index remainingOrder (max 0 (idx - 1)))
                     (nullish (at_index remainingOrder 0) None);
                 st1 = st\<lparr>effects := effects st @ [Dispose (tabId entry)]\<rparr>;
                 st2 = st1\<lparr>tabs := AList.delete tid (tabs st1)\<rparr>;
                 orderIdx = indexOf (tabOrder st2) tid;
                 st3 = (if orderIdx \<noteq> - 1
                        then st2\<lparr>tabOrder := splice1 (tabOrder st2) orderIdx\<rparr> else st2)
             in (replacementId, st3)))"

text \<open>
  \<^verbatim>\<open>createTab\<close> is an async function: it runs up to \<^verbatim>\<open>await createAgentSession\<close>,
  is resumed when that promise settles and runs up to \<^verbatim>\<open>await session.bindExtensions\<close>,
  and is resumed again to register the tab. Other handlers may run between these segments.
  The three segments, with what the first one leaves in its local variables:
\<close>

record pending_tab =
  pt_tabId :: tab_id
  pt_name :: "string option"
  pt_sessionPath :: "string option"
  pt_storedName :: "string option"

definition createTab_begin ::
  "runtime \<Rightarrow> string option \<Rightarrow> string option \<Rightarrow> server \<Rightarrow> (string + pending_tab) \<times> server" where
  "createTab_begin rt nm sessionPath st =
     (let st1 = st\<lparr>tabCounter := tabCounter st + 1\<rparr> in
      case rt_sessionManager rt of
        Inl err \<Rightarrow> (Inl err, st1)
      | Inr storedName \<Rightarrow>
          (Inr \<lparr>pt_tabId = rt_uuid rt, pt_name = nm, pt_sessionPath = sessionPath,
                pt_storedName = storedName\<rparr>, st1))"

definition createTab_session :: "pending_tab \<Rightarrow> string + AgentSession \<Rightarrow> server \<Rightarrow> string + TabEntry" where
  "createTab_session p settled_with st =
     (case settled_with of
        Inl err \<Rightarrow> Inl err
      | Inr sess \<Rightarrow>
          Inr \<lparr>tabId = pt_tabId p,
               name = displayNameOf (pt_name p) (pt_sessionPath p) (pt_storedName p) (tabCounter st),
               session = sess\<rparr>)"

definition createTab_bound :: "TabEntry \<Rightarrow> string option \<Rightarrow> server \<Rightarrow> (string + TabEntry) \<times> server" where
  "createTab_bound entry settled_with st =
     (case settled_with of
        Some err \<Rightarrow> (Inl err, st)
      | None \<Rightarrow>
          (Inr entry,
           st\<lparr>tabs := AList.update (tabId entry) entry (tabs st),
              tabOrder := tabOrder st @ [tabId entry]\<rparr>))"

subsection \<open>Command dispatcher (the message handler of a connection)\<close>

text \<open>
  What the collaborators answer during one command: the inputs of \<^const>\<open>createTab\<close>, the
  result of each \<^verbatim>\<open>SessionManager.listAll()\<close> (\<^const>\<open>Inl\<close> when it rejects) and the
  error of \<^verbatim>\<open>unlink\<close> if it rejects. The cases below are written as one block each,
  from the first statement to the last with these answers; the \<^verbatim>\<open>open_session\<close> case is
  written in the segments between its \<^verbatim>\<open>await\<close>s, so that two handlers can be
  interleaved.
\<close>

record collaborators =
  c_runtime :: runtime
  c_listAll :: "string + SessionInfo list"
  c_listAllAfter :: "string + SessionInfo list"
  c_unlink :: "string option"

datatype command =
    NewSession
  | SwitchSession tab_id
  | CloseTabCmd tab_id
  | ListSessions
  | OpenSession string
  | DeleteSession string
  | ExtensionUIResponse req_id response
  | UnknownCommand
  | Malformed

text \<open>A case of the switch ends normally (\<^const>\<open>None\<close>) or throws.\<close>

type_synonym outcome_of_case = "string option \<times> server"

definition setActiveTab :: "conn \<Rightarrow> tab_id \<Rightarrow> server \<Rightarrow> server" where
  "setActiveTab ws tid st = st\<lparr>clientActiveTab := (clientActiveTab st)(ws \<mapsto> tid)\<rparr>"

definition case_new_session :: "conn \<Rightarrow> collaborators \<Rightarrow> server \<Rightarrow> outcome_of_case" where
  "case_new_session ws env st =
     (case createTab (c_runtime env) None None st of
        (Inl err, st1) \<Rightarrow> (Some err, st1)
      | (Inr newEntry, st1) \<Rightarrow>
          (None, sendStateSync ws newEntry (broadcastTabsList (setActiveTab ws (tabId newEntry) st1))))"

definition case_switch_session :: "conn \<Rightarrow> tab_id \<Rightarrow> server \<Rightarrow> outcome_of_case" where
  "case_switch_session ws targetTabId st =
     (case map_of (tabs st) targetTabId of
        None \<Rightarrow> (None, st)
      | Some targetEntry \<Rightarrow> (None, sendStateSync ws targetEntry (setActiveTab ws targetTabId st)))"

text \<open>
  The body of the loop over \<^verbatim>\<open>wss.clients\<close> that follows \<^verbatim>\<open>closeTab\<close> in the cases
  \<^verbatim>\<open>close_tab\<close> and \<^verbatim>\<open>delete_session\<close>.
\<close>

definition fallbackEntry :: "tab_id option \<Rightarrow> server \<Rightarrow> TabEntry option" where
  "fallbackEntry replacementId st =
     (if truthy replacementId
      then (case replacementId of None \<Rightarrow> None | Some r \<Rightarrow> map_of (tabs st) r)
      else (case at_index (tabOrder st) 0 of None \<Rightarrow> None | Some f \<Rightarrow> map_of (tabs st) f))"

definition redirectClient :: "tab_id \<Rightarrow> tab_id option \<Rightarrow> conn \<Rightarrow> server \<Rightarrow> server" where
  "redirectClient closedId replacementId client st =
     (if readyState st client = OPEN \<and> clientActiveTab st client = Some closedId
      then (case fallbackEntry replacementId st of
              None \<Rightarrow> st
            | Some fallback \<Rightarrow> sendStateSync client fallback (setActiveTab client (tabId fallback) st))
      else st)"

definition redirectClients :: "tab_id \<Rightarrow> tab_id option \<Rightarrow> server \<Rightarrow> server" where
  "redirectClients closedId replacementId st =
     fold (redirectClient closedId replacementId) (clients st) st"

definition case_close_tab :: "tab_id \<Rightarrow> server \<Rightarrow> outcome_of_case" where
  "case_close_tab targetTabId st =
     (if map_of (tabs st) targetTabId = None then (None, st)
      else if length (tabs st) \<le> 1 then (None, st)
      else
        (case closeTab targetTabId st of
           (replacementId, st1) \<Rightarrow>
             (None, redirectClients targetTabId replacementId (broadcastTabsList st1))))"

text \<open>The listing sent by \<^verbatim>\<open>list_sessions\<close> and \<^verbatim>\<open>delete_session\<close>: saved sessions not
  open in a tab, newest first (the sort is stable).\<close>

definition availableSessions :: "SessionInfo list \<Rightarrow> server \<Rightarrow> SessionInfo list" where
  "availableSessions allSessions st =
     (let openIds = set (map (\<lambda>t. sessionId (session (snd t))) (tabs st))
      in sort_key (\<lambda>s. - si_modified s) (filter (\<lambda>s. si_id s \<notin> openIds) allSessions))"

definition case_list_sessions :: "conn \<Rightarrow> collaborators \<Rightarrow> server \<Rightarrow> outcome_of_case" where
  "case_list_sessions ws env st =
     (case c_listAll env of
        Inl err \<Rightarrow>
          (None, send ws (SessionsList (availableSessions [] st))
                   (st\<lparr>effects := effects st @ [LogError err]\<rparr>))
      | Inr allSessions \<Rightarrow> (None, send ws (SessionsList (availableSessions allSessions st)) st))"

text \<open>
  The \<^verbatim>\<open>open_session\<close> case runs in segments, each ended by an \<^verbatim>\<open>await\<close>: up to
  \<^verbatim>\<open>await SessionManager.listAll()\<close>; then the lookup of the session, the already-open
  check and the first segment of \<^verbatim>\<open>createTab\<close>; then the second segment of
  \<^verbatim>\<open>createTab\<close>; then its last segment together with the rest of the case.
  \<open>open_progress\<close> is the point where a handler is suspended.
\<close>

datatype open_progress =
    Arrived
  | AwaitListAll
  | AwaitSession pending_tab
  | AwaitBind TabEntry
  | Finished "string option"

definition open_session_listed ::
  "conn \<Rightarrow> string \<Rightarrow> collaborators \<Rightarrow> server \<Rightarrow> open_progress \<times> server" where
  "open_session_listed ws sessionPath env st =
     (case c_listAll env of
        Inl err \<Rightarrow> (Finished (Some err), st)
      | Inr allSessions \<Rightarrow>
          (case find (\<lambda>s. si_path s = sessionPath) allSessions of
             None \<Rightarrow> (Finished None, st)
           | Some info \<Rightarrow>
               (case find (\<lambda>t. sessionId (session t) = si_id info) (map snd (tabs st)) of
                  Some alreadyOpen \<Rightarrow>
                    (Finished None,
                     sendStateSync ws alreadyOpen (setActiveTab ws (tabId alreadyOpen) st))
                | None \<Rightarrow>
                    (case createTab_begin (c_runtime env) None (Some sessionPath) st of
                       (Inl err, st1) \<Rightarrow> (Finished (Some err), st1)
                     | (Inr p, st1) \<Rightarrow> (AwaitSession p, st1)))))"

definition open_session_created :: "conn \<Rightarrow> TabEntry \<Rightarrow> server \<Rightarrow> server" where
  "open_session_created ws newEntry st =
     sendStateSync ws newEntry (broadcastTabsList (setActiveTab ws (tabId newEntry) st))"

fun open_session_segment ::
  "conn \<Rightarrow> string \<Rightarrow> collaborators \<Rightarrow> open_progress \<Rightarrow> server \<Rightarrow> open_progress \<times> server" where
  "open_session_segment ws sessionPath env Arrived st =
     (if sessionPath = [] then (Finished None, st) else (AwaitListAll, st))"
| "open_session_segment ws sessionPath env AwaitListAll st =
     open_session_listed ws sessionPath env st"
| "open_session_segment ws sessionPath env (AwaitSession p) st =
     (case createTab_session p (rt_createAgentSession (c_runtime env)) st of
        Inl err \<Rightarrow> (Finished (Some err), st)
      | Inr entry \<Rightarrow> (AwaitBind entry, st))"
| "open_session_segment ws sessionPath env (AwaitBind entry) st =
     (case createTab_bound entry (rt_bindExtensions (c_runtime env)) st of
        (Inl err, st1) \<Rightarrow> (Finished (Some err), st1)
      | (Inr newEntry, st1) \<Rightarrow> (Finished None, open_session_created ws newEntry st1))"
| "open_session_segment ws sessionPath env (Finished e) st = (Finished e, st)"

text \<open>The case when nothing else runs between its four segments.\<close>

definition case_open_session :: "conn \<Rightarrow> string \<Rightarrow> collaborators \<Rightarrow> server \<Rightarrow> outcome_of_case" where
  "case_open_session ws sessionPath env st =
     (case open_session_segment ws sessionPath env Arrived st of
        (p1, st1) \<Rightarrow>
          (case open_session_segment ws sessionPath env p1 st1 of
             (p2, st2) \<Rightarrow>
               (case open_session_segment ws sessionPath env p2 st2 of
                  (p3, st3) \<Rightarrow>
                    (case open_session_segment ws sessionPath env p3 st3 of
                       (Finished e, st4) \<Rightarrow> (e, st4)
                     | (p4, st4) \<Rightarrow> (None, st4)))))"

definition case_delete_session :: "conn \<Rightarrow> string \<Rightarrow> collaborators \<Rightarrow> server \<Rightarrow> outcome_of_case" where
  "case_delete_session ws sessionPath env st =
     (if sessionPath = [] then (None, st)
      else
        (let allForDelete = (case c_listAll env of Inl err \<Rightarrow> [] | Inr l \<Rightarrow> l);
             deleteInfo = find (\<lambda>s. si_path s = sessionPath) allForDelete;
             st1 =
               (case deleteInfo of
                  None \<Rightarrow> st
                | Some info \<Rightarrow>
                    (case find (\<lambda>t. sessionId (session t) = si_id info) (map snd (tabs st)) of
                       None \<Rightarrow> st
                     | Some openTab \<Rightarrow>
                         if length (tabs st) > 1
                         then (case closeTab (tabId openTab) st of
                                 (replacementId, sa) \<Rightarrow>
                                   redirectClients (tabId openTab) replacementId
                                     (broadcastTabsList sa))
                         else st));
             st2 = st1\<lparr>effects := effects st1 @ [Unlink sessionPath]\<rparr>;
             st3 = (case c_unlink env of
                      None \<Rightarrow> st2
                    | Some err \<Rightarrow> st2\<lparr>effects := effects st2 @ [LogError err]\<rparr>);
             updatedSessions = (case c_listAllAfter env of Inl err \<Rightarrow> [] | Inr l \<Rightarrow> l)
         in (None, send ws (SessionsList (availableSessions updatedSessions st3)) st3)))"

subsection \<open>Request/response correlator (createExtensionUIContext)\<close>

text \<open>
  The promise that \<^verbatim>\<open>createDialogPromise\<close> returns: already resolved, or the promise
  created around the closures of one dialog. \<^const>\<open>resolutions\<close> logs every call of
  such a promise's \<^verbatim>\<open>resolve\<close> function, in order.
\<close>

datatype promise = Resolved outcome | Awaiting dialog

text \<open>Truthiness of a value, the \<^verbatim>\<open>in\<close> operator, and the two parsers.\<close>

fun truthy_value :: "js_value \<Rightarrow> bool" where
  "truthy_value JUndefined = False"
| "truthy_value JNull = False"
| "truthy_value (JBool b) = b"
| "truthy_value (JStr s) = (s \<noteq> [])"
| "truthy_value (JNum n) = (n \<noteq> 0)"

definition has_key :: "string \<Rightarrow> response \<Rightarrow> bool" where
  "has_key k r = (map_of r k \<noteq> None)"

definition field :: "string \<Rightarrow> response \<Rightarrow> js_value" where
  "field k r = (case map_of r k of None \<Rightarrow> JUndefined | Some v \<Rightarrow> v)"

fun applyParser :: "parser \<Rightarrow> response \<Rightarrow> outcome" where
  "applyParser ParseValue r =
     (if has_key ''cancelled'' r \<and> truthy_value (field ''cancelled'' r) then JUndefined
      else if has_key ''value'' r then field ''value'' r else JUndefined)"
| "applyParser ParseConfirmed r =
     (if has_key ''cancelled'' r \<and> truthy_value (field ''cancelled'' r) then JBool False
      else if has_key ''confirmed'' r then field ''confirmed'' r else JBool False)"

definition timeoutSet :: "dialog \<Rightarrow> bool" where
  "timeoutSet d = (case d_timeout d of None \<Rightarrow> False | Some t \<Rightarrow> t \<noteq> 0)"

definition cleanup :: "dialog \<Rightarrow> server \<Rightarrow> server" where
  "cleanup d st =
     (let st1 = (if timeoutSet d then st\<lparr>timers := removeAll d (timers st)\<rparr> else st);
          st2 = (case d_signal d of
                   None \<Rightarrow> st1
                 | Some s \<Rightarrow> st1\<lparr>listeners := removeAll (s, d) (listeners st1)\<rparr>)
      in st2\<lparr>pendingExtensionRequests := (pendingExtensionRequests st2)(d_id d := None)\<rparr>)"

definition resolve :: "dialog \<Rightarrow> outcome \<Rightarrow> server \<Rightarrow> server" where
  "resolve d v st = st\<lparr>resolutions := resolutions st @ [(d, v)]\<rparr>"

definition onAbort :: "dialog \<Rightarrow> server \<Rightarrow> server" where
  "onAbort d st = resolve d (d_default d) (cleanup d st)"

definition onTimeout :: "dialog \<Rightarrow> server \<Rightarrow> server" where
  "onTimeout d st = resolve d (d_default d) (cleanup d st)"

definition pendingResolve :: "dialog \<Rightarrow> response \<Rightarrow> server \<Rightarrow> server" where
  "pendingResolve d r st = resolve d (applyParser (d_parse d) r) (cleanup d st)"

definition pendingReject :: "dialog \<Rightarrow> server \<Rightarrow> server" where
  "pendingReject d st = resolve d (d_default d) (cleanup d st)"

definition signalAborted :: "abort_signal option \<Rightarrow> server \<Rightarrow> bool" where
  "signalAborted sig st = (case sig of None \<Rightarrow> False | Some s \<Rightarrow> s \<in> set (aborted st))"

definition createDialogPromise ::
  "req_id \<Rightarrow> abort_signal option \<Rightarrow> nat option \<Rightarrow> outcome \<Rightarrow> ui_request \<Rightarrow>
   parser \<Rightarrow> server \<Rightarrow> promise \<times> server" where
  "createDialogPromise uuid sig tmo defaultValue request parseResponse st =
     (if signalAborted sig st then (Resolved defaultValue, st)
      else
        (let d = \<lparr>d_id = uuid, d_signal = sig, d_timeout = tmo, d_default = defaultValue,
                  d_parse = parseResponse\<rparr>;
             st1 = (case sig of
                      None \<Rightarrow> st
                    | Some s \<Rightarrow> st\<lparr>listeners := listeners st @ [(s, d)]\<rparr>);
             st2 = (if timeoutSet d then st1\<lparr>timers := timers st1 @ [d]\<rparr> else st1);
             st3 = st2\<lparr>pendingExtensionRequests := (pendingExtensionRequests st2)(uuid \<mapsto> d)\<rparr>
         in (Awaiting d, broadcastAll (ExtensionUIRequest uuid request) st3)))"

text \<open>The three dialogs of the UI context; \<open>uuid\<close> is what \<^verbatim>\<open>crypto.randomUUID()\<close>
  returns inside \<^verbatim>\<open>createDialogPromise\<close>.\<close>

definition select ::
  "req_id \<Rightarrow> string \<Rightarrow> string list \<Rightarrow> abort_signal option \<Rightarrow> nat option \<Rightarrow> server \<Rightarrow>
   promise \<times> server" where
  "select uuid title options sig tmo st =
     createDialogPromise uuid sig tmo JUndefined (SelectRequest title options tmo) ParseValue st"

definition confirm ::
  "req_id \<Rightarrow> string \<Rightarrow> string option \<Rightarrow> abort_signal option \<Rightarrow> nat option \<Rightarrow> server \<Rightarrow>
   promise \<times> server" where
  "confirm uuid title message sig tmo st =
     createDialogPromise uuid sig tmo (JBool False) (ConfirmRequest title message tmo) ParseConfirmed st"

definition input ::
  "req_id \<Rightarrow> string \<Rightarrow> string option \<Rightarrow> abort_signal option \<Rightarrow> nat option \<Rightarrow> server \<Rightarrow>
   promise \<times> server" where
  "input uuid title placeholder sig tmo st =
     createDialogPromise uuid sig tmo JUndefined (InputRequest title placeholder tmo) ParseValue st"

text \<open>The \<^verbatim>\<open>extension_ui_response\<close> case of the message handler.\<close>

definition case_extension_ui_response :: "req_id \<Rightarrow> response \<Rightarrow> server \<Rightarrow> server" where
  "case_extension_ui_response i cmd st =
     (case pendingExtensionRequests st i of
        None \<Rightarrow> st
      | Some pending \<Rightarrow>
          pendingResolve pending cmd
            (st\<lparr>pendingExtensionRequests := (pendingExtensionRequests st)(i := None)\<rparr>))"

text \<open>
  The two events of the host environment. A timer runs its callback once, and only while
  it has not been cleared. An abort signal fires once; it calls the listeners registered
  on it in order, skipping one that was removed meanwhile, and a listener registered with
  \<^verbatim>\<open>once: true\<close> is removed before it runs.
\<close>

definition timerFires :: "dialog \<Rightarrow> server \<Rightarrow> server" where
  "timerFires d st =
     (if d \<in> set (timers st) then onTimeout d (st\<lparr>timers := removeAll d (timers st)\<rparr>) else st)"

definition dispatchAbort :: "abort_signal \<Rightarrow> abort_signal \<times> dialog \<Rightarrow> server \<Rightarrow> server" where
  "dispatchAbort s l st =
     (if fst l = s \<and> l \<in> set (listeners st)
      then onAbort (snd l) (st\<lparr>listeners := removeAll l (listeners st)\<rparr>) else st)"

definition abortFires :: "abort_signal \<Rightarrow> server \<Rightarrow> server" where
  "abortFires s st =
     (if s \<in> set (aborted st) then st
      else fold (dispatchAbort s) (listeners st) (st\<lparr>aborted := s # aborted st\<rparr>))"

datatype ui_event = Reply req_id response | TimerFires dialog | AbortFires abort_signal

fun ui_step :: "ui_event \<Rightarrow> server \<Rightarrow> server" where
  "ui_step (Reply i r) st = case_extension_ui_response i r st"
| "ui_step (TimerFires d) st = timerFires d st"
| "ui_step (AbortFires s) st = abortFires s st"

definition ui_run :: "ui_event list \<Rightarrow> server \<Rightarrow> server" where
  "ui_run evs st = fold ui_step evs st"

definition resolved_values :: "dialog \<Rightarrow> server \<Rightarrow> outcome list" where
  "resolved_values d st = map snd (filter (\<lambda>p. fst p = d) (resolutions st))"

text \<open>
  The message handler: a payload that does not parse is dropped; an error thrown by a case
  is caught and logged. The cases \<^verbatim>\<open>prompt\<close> and \<^verbatim>\<open>abort\<close> only call into the
  agent runtime and are left out. A command is a JSON object; a payload that parses to
  \<^verbatim>\<open>null\<close> or to a number is outside this model.
\<close>

definition onMessage :: "conn \<Rightarrow> command \<Rightarrow> collaborators \<Rightarrow> server \<Rightarrow> server" where
  "onMessage ws cmd env st =
     (case cmd of
        Malformed \<Rightarrow> st
      | _ \<Rightarrow>
        (case (case cmd of
                 NewSession \<Rightarrow> case_new_session ws env st
               | SwitchSession t \<Rightarrow> case_switch_session ws t st
               | CloseTabCmd t \<Rightarrow> case_close_tab t st
               | ListSessions \<Rightarrow> case_list_sessions ws env st
               | OpenSession p \<Rightarrow> case_open_session ws p env st
               | DeleteSession p \<Rightarrow> case_delete_session ws p env st
               | ExtensionUIResponse i r \<Rightarrow> (None, case_extension_ui_response i r st)
               | _ \<Rightarrow> (None, st)) of
           (None, st1) \<Rightarrow> st1
         | (Some err, st1) \<Rightarrow> st1\<lparr>effects := effects st1 @ [LogError err]\<rparr>))"

text \<open>
  Several \<^verbatim>\<open>open_session\<close> handlers in flight. A handler is resumed for one segment at
  a time; an error it throws is caught and logged by its own handler. A schedule names the
  handler to resume next.
\<close>

record open_handler =
  oh_ws :: conn
  oh_sessionPath :: string
  oh_env :: collaborators
  oh_progress :: open_progress

definition open_session_resume :: "open_handler \<Rightarrow> server \<Rightarrow> open_handler \<times> server" where
  "open_session_resume h st =
     (case oh_progress h of
        Finished e \<Rightarrow> (h, st)
      | _ \<Rightarrow>
          (case open_session_segment (oh_ws h) (oh_sessionPath h) (oh_env h) (oh_progress h) st of
             (Finished (Some err), st1) \<Rightarrow>
               (h\<lparr>oh_progress := Finished (Some err)\<rparr>, st1\<lparr>effects := effects st1 @ [LogError err]\<rparr>)
           | (p, st1) \<Rightarrow> (h\<lparr>oh_progress := p\<rparr>, st1)))"

definition schedule_step :: "nat \<Rightarrow> open_handler list \<times> server \<Rightarrow> open_handler list \<times> server" where
  "schedule_step i hs_st =
     (case hs_st of
        (hs, st) \<Rightarrow>
          if i < length hs
          then (case open_session_resume (hs ! i) st of (h, st1) \<Rightarrow> (hs[i := h], st1))
          else (hs, st))"

definition run_handlers :: "nat list \<Rightarrow> open_handler list \<Rightarrow> server \<Rightarrow> open_handler list \<times> server" where
  "run_handlers schedule hs st = fold schedule_step schedule (hs, st)"

section \<open>The browser client (src/main.ts): applying a state sync\<close>

text \<open>
  The part of the client state that \<^verbatim>\<open>handleServerEvent\<close> and \<^verbatim>\<open>handleStateSync\<close>
  read and write; rendering and scrolling are left out. \<^verbatim>\<open>state.tabs\<close> is
  \<open>tabs_client\<close> here, and \<^verbatim>\<open>currentAssistantItem\<close> is the index of the item it
  refers to.
\<close>

datatype content =
    CText string
  | CThinking string
  | CToolCall string string string
  | COther

datatype user_content = UString string | UArray "content list" | UOther string

datatype sync_message =
    RoleUser user_content
  | RoleAssistant "content list option"
  | RoleToolResult string "content option" "bool option"
  | RoleOther

datatype block =
    ThinkingBlock string bool
  | TextBlock string
  | ToolBlock string string string string bool bool bool

datatype item = UserItem string | AssistantItem "block list" bool

record sync_data =
  sd_tabId :: "string option"
  sd_messages :: "sync_message list option"
  sd_streaming :: "bool option"

record client =
  connected :: bool
  streaming :: bool
  items :: "item list"
  tabs_client :: "(string \<times> string) list"
  activeTabId :: "string option"
  scrollToBottomOnSync :: bool
  currentAssistantItem :: "nat option"

datatype server_event = EvTabsUpdate "(string \<times> string) list option" | EvStateSync sync_data

fun join :: "string \<Rightarrow> string list \<Rightarrow> string" where
  "join sep [] = []"
| "join sep [x] = x"
| "join sep (x # y # ys) = x @ sep @ join sep (y # ys)"

fun textOf :: "content \<Rightarrow> string option" where
  "textOf (CText t) = Some t"
| "textOf _ = None"

definition userText :: "user_content \<Rightarrow> string" where
  "userText c =
     (case c of
        UString s \<Rightarrow> s
      | UArray parts \<Rightarrow> join [CHR 0x0A] (List.map_filter textOf parts)
      | UOther s \<Rightarrow> s)"

fun blockOf :: "content \<Rightarrow> block option" where
  "blockOf (CText t) = Some (TextBlock t)"
| "blockOf (CThinking t) = Some (ThinkingBlock t False)"
| "blockOf (CToolCall cid nm args) = Some (ToolBlock cid nm args [] False False False)"
| "blockOf COther = None"

fun isToolWith :: "string \<Rightarrow> block \<Rightarrow> bool" where
  "isToolWith cid (ToolBlock c n a out e r x) = (c = cid)"
| "isToolWith cid _ = False"

text \<open>The first tool block of the call, mutated in place; \<^const>\<open>None\<close> when there is none.\<close>

fun mutateFirst :: "string \<Rightarrow> (block \<Rightarrow> block) \<Rightarrow> block list \<Rightarrow> block list option" where
  "mutateFirst cid m [] = None"
| "mutateFirst cid m (b # bs) =
     (if isToolWith cid b then Some (m b # bs) else map_option ((#) b) (mutateFirst cid m bs))"

text \<open>\<^verbatim>\<open>findToolBlock\<close> walks the items from the last to the first: here over the reversed list.\<close>

fun findToolBlockRev :: "string \<Rightarrow> (block \<Rightarrow> block) \<Rightarrow> item list \<Rightarrow> item list" where
  "findToolBlockRev cid m [] = []"
| "findToolBlockRev cid m (UserItem t # rest) = UserItem t # findToolBlockRev cid m rest"
| "findToolBlockRev cid m (AssistantItem bs s # rest) =
     (case mutateFirst cid m bs of
        Some bs' \<Rightarrow> AssistantItem bs' s # rest
      | None \<Rightarrow> AssistantItem bs s # findToolBlockRev cid m rest)"

definition findToolBlock :: "string \<Rightarrow> (block \<Rightarrow> block) \<Rightarrow> item list \<Rightarrow> item list" where
  "findToolBlock cid m its = rev (findToolBlockRev cid m (rev its))"

fun setResult :: "string \<Rightarrow> bool \<Rightarrow> block \<Rightarrow> block" where
  "setResult text err (ToolBlock c n a out e r x) = ToolBlock c n a text err False (if err then True else x)"
| "setResult text err b = b"

definition applyMessage :: "sync_message \<Rightarrow> item list \<Rightarrow> item list" where
  "applyMessage msg its =
     (case msg of
        RoleUser c \<Rightarrow> its @ [UserItem (userText c)]
      | RoleAssistant contentArr \<Rightarrow>
          its @ [AssistantItem (case contentArr of None \<Rightarrow> [] | Some cs \<Rightarrow> List.map_filter blockOf cs) False]
      | RoleToolResult callId c isErr \<Rightarrow>
          findToolBlock callId
            (setResult (case c of Some (CText t) \<Rightarrow> t | _ \<Rightarrow> [])
                       (case isErr of Some b \<Rightarrow> b | None \<Rightarrow> False)) its
      | RoleOther \<Rightarrow> its)"

definition handleStateSync :: "sync_data \<Rightarrow> client \<Rightarrow> client" where
  "handleStateSync data st =
     (if truthy (sd_tabId data) \<and> sd_tabId data \<noteq> activeTabId st then st
      else st\<lparr>items := (case sd_messages data of None \<Rightarrow> [] | Some ms \<Rightarrow> fold applyMessage ms []),
              currentAssistantItem := None,
              streaming := (case sd_streaming data of Some b \<Rightarrow> b | None \<Rightarrow> False),
              scrollToBottomOnSync := False\<rparr>)"

definition handleServerEvent :: "server_event \<Rightarrow> client \<Rightarrow> client" where
  "handleServerEvent event st =
     (case event of
        EvTabsUpdate ts \<Rightarrow>
          (let st1 = st\<lparr>tabs_client := (case ts of None \<Rightarrow> [] | Some l \<Rightarrow> l)\<rparr>
           in if \<not> truthy (activeTabId st1) \<and> length (tabs_client st1) > 0
              then st1\<lparr>activeTabId := Some (fst (hd (tabs_client st1)))\<rparr> else st1)
      | EvStateSync data \<Rightarrow>
          handleStateSync data
            (if truthy (sd_tabId data) then st\<lparr>activeTabId := sd_tabId data\<rparr> else st))"

text \<open>The click on a tab: the client adopts the tab at once and asks the server to switch.\<close>

definition clickTab :: "string \<Rightarrow> client \<Rightarrow> client" where
  "clickTab t st = (if Some t \<noteq> activeTabId st then st\<lparr>activeTabId := Some t\<rparr> else st)"

section \<open>Invariants and example states\<close>

text \<open>
  The registry invariant of the tab registry: order and mapping have the same keys, no key
  twice, and every entry is stored under its own identifier.
\<close>

definition registry_inv :: "server \<Rightarrow> bool" where
  "registry_inv st \<longleftrightarrow>
     distinct (tabOrder st) \<and> distinct (map fst (tabs st)) \<and>
     set (tabOrder st) = set (map fst (tabs st)) \<and>
     (\<forall>p \<in> set (tabs st). tabId (snd p) = fst p)"

definition mkEntry :: "tab_id \<Rightarrow> string \<Rightarrow> string \<Rightarrow> TabEntry" where
  "mkEntry t n sid =
     \<lparr>tabId = t, name = n,
      session = \<lparr>sessionId = sid, messages = [], isStreaming = False, model = None\<rparr>\<rparr>"

text \<open>
  Three tabs A, B, C in creation order; connections 1 and 2 watch A and B, 3 and 4 watch B
  as well, and 4 is no longer open.
\<close>

definition demo3 :: server where
  "demo3 =
     \<lparr>tabOrder = [''A'', ''B'', ''C''],
      tabs = [(''A'', mkEntry ''A'' ''Session 1'' ''s1''),
              (''B'', mkEntry ''B'' ''Session 2'' ''s2''),
              (''C'', mkEntry ''C'' ''Session 3'' ''s3'')],
      clientActiveTab = [1 \<mapsto> ''A'', 2 \<mapsto> ''B'', 3 \<mapsto> ''B'', 4 \<mapsto> ''B''],
      tabCounter = 3,
      clients = [1, 2, 3, 4],
      readyState = (\<lambda>c. if c = 4 then CLOSED else OPEN),
      pendingExtensionRequests = Map.empty,
      timers = [], listeners = [], aborted = [], resolutions = [], effects = []\<rparr>"

definition demo2 :: server where
  "demo2 =
     demo3\<lparr>tabOrder := [''A'', ''B''],
           tabs := [(''A'', mkEntry ''A'' ''Session 1'' ''s1''),
                    (''B'', mkEntry ''B'' ''Session 2'' ''s2'')],
           tabCounter := 2\<rparr>"

definition demo1 :: server where
  "demo1 =
     demo3\<lparr>tabOrder := [''A''],
           tabs := [(''A'', mkEntry ''A'' ''Session 1'' ''s1'')],
           clientActiveTab := [1 \<mapsto> ''A''],
           clients := [1],
           tabCounter := 1\<rparr>"

text \<open>A saved session that is open in tab A, and collaborators for one command: the
  runtime cannot be constructed, the storage lists that one session.\<close>

definition demoInfo :: SessionInfo where
  "demoInfo = \<lparr>si_id = ''s1'', si_path = ''/sessions/one.jsonl'', si_name = None, si_cwd = ''/work'',
      si_created = 1000, si_modified = 2000, si_messageCount = 3, si_firstMessage = ''hello''\<rparr>"

definition demoRuntime :: runtime where
  "demoRuntime = \<lparr>rt_uuid = ''D'', rt_sessionManager = Inr None,
      rt_createAgentSession = Inl ''no api key'', rt_bindExtensions = None\<rparr>"

definition demoEnv :: collaborators where
  "demoEnv = \<lparr>c_runtime = demoRuntime, c_listAll = Inr [demoInfo], c_listAllAfter = Inr [],
      c_unlink = None\<rparr>"

text \<open>
  Invariants of the correlator. Every stored entry sits under its own request identifier,
  every listener is registered on the signal of its own dialog, and a timer exists only for
  a dialog with a timeout. A dialog is settled when its entry, its timer and its listener
  are gone. \<open>act\<close> is the body shared by the four closures: \<^verbatim>\<open>cleanup()\<close>, then
  \<^verbatim>\<open>resolve(v)\<close>.
\<close>

definition ui_wf :: "server \<Rightarrow> bool" where
  "ui_wf st \<longleftrightarrow>
     (\<forall>k p. pendingExtensionRequests st k = Some p \<longrightarrow> d_id p = k) \<and>
     (\<forall>l \<in> set (listeners st). d_signal (snd l) = Some (fst l)) \<and>
     (\<forall>p \<in> set (timers st). timeoutSet p)"

definition settled :: "dialog \<Rightarrow> server \<Rightarrow> bool" where
  "settled d st \<longleftrightarrow>
     pendingExtensionRequests st (d_id d) = None \<and> d \<notin> set (timers st) \<and>
     d \<notin> snd ` set (listeners st)"

fun triggers :: "ui_event \<Rightarrow> dialog \<Rightarrow> server \<Rightarrow> bool" where
  "triggers (Reply i r) d st = (i = d_id d)"
| "triggers (TimerFires p) d st = (p = d \<and> d \<in> set (timers st))"
| "triggers (AbortFires s) d st = (s \<notin> set (aborted st) \<and> (s, d) \<in> set (listeners st))"

fun trigger_value :: "ui_event \<Rightarrow> dialog \<Rightarrow> outcome" where
  "trigger_value (Reply i r) d = applyParser (d_parse d) r"
| "trigger_value (TimerFires p) d = d_default d"
| "trigger_value (AbortFires s) d = d_default d"

definition act :: "dialog \<Rightarrow> outcome \<Rightarrow> server \<Rightarrow> server" where
  "act p v st = resolve p v (cleanup p st)"

definition quiet :: "dialog \<Rightarrow> outcome list \<Rightarrow> server \<Rightarrow> bool" where
  "quiet d vs st \<longleftrightarrow> ui_wf st \<and> settled d st \<and> resolved_values d st = vs"

definition unresolved :: "abort_signal \<Rightarrow> dialog \<Rightarrow> server \<Rightarrow> bool" where
  "unresolved s d st \<longleftrightarrow> ui_wf st \<and> (s, d) \<in> set (listeners st) \<and> resolved_values d st = []"

text \<open>A confirm dialog with a 50 ms timeout and a signal, asked in the three-tab state;
  a client that watches tab A, and a sync that the server made for tab B.\<close>

definition demoDialog :: dialog where
  "demoDialog = \<lparr>d_id = ''r1'', d_signal = Some 7, d_timeout = Some 50, d_default = JBool False,
      d_parse = ParseConfirmed\<rparr>"

definition demoAsk :: server where
  "demoAsk = snd (confirm ''r1'' ''Proceed?'' None (Some 7) (Some 50) demo3)"

definition demoClient :: client where
  "demoClient =
     \<lparr>connected = True, streaming = False, items = [UserItem ''question in tab A''],
      tabs_client = [(''A'', ''Session 1''), (''B'', ''Session 2''), (''C'', ''Session 3'')],
      activeTabId = Some ''A'', scrollToBottomOnSync = False, currentAssistantItem = None\<rparr>"

definition staleSync :: sync_data where
  "staleSync = \<lparr>sd_tabId = Some ''B'', sd_messages = Some [RoleUser (UString ''question in tab B'')],
      sd_streaming = Some False\<rparr>"


text \<open>
  The saved session of tab B; collaborators whose listing rejects, and collaborators that
  list the session of tab B. A third saved session that no tab has open, and two handlers
  that are asked to open it, each with a runtime that resumes it under a new UUID.
\<close>

definition demoInfoB :: SessionInfo where
  "demoInfoB = \<lparr>si_id = ''s2'', si_path = ''/sessions/two.jsonl'', si_name = None, si_cwd = ''/work'',
      si_created = 1500, si_modified = 2500, si_messageCount = 1, si_firstMessage = ''hi''\<rparr>"



definition demoInfoC :: SessionInfo where
  "demoInfoC = \<lparr>si_id = ''s3'', si_path = ''/sessions/three.jsonl'', si_name = None, si_cwd = ''/work'',
      si_created = 1700, si_modified = 2700, si_messageCount = 2, si_firstMessage = ''hey''\<rparr>"

definition demoResume :: "tab_id \<Rightarrow> collaborators" where
  "demoResume uuid =
     \<lparr>c_runtime = \<lparr>rt_uuid = uuid, rt_sessionManager = Inr None,
                    rt_createAgentSession =
                      Inr \<lparr>sessionId = ''s3'', messages = [], isStreaming = False, model = None\<rparr>,
                    rt_bindExtensions = None\<rparr>,
      c_listAll = Inr [demoInfo, demoInfoB, demoInfoC], c_listAllAfter = Inr [],
      c_unlink = None\<rparr>"

definition demoHandlers :: "open_handler list" where
  "demoHandlers =
     [\<lparr>oh_ws = 1, oh_sessionPath = ''/sessions/three.jsonl'', oh_env = demoResume ''D'',
       oh_progress = Arrived\<rparr>,
      \<lparr>oh_ws = 2, oh_sessionPath = ''/sessions/three.jsonl'', oh_env = demoResume ''E'',
       oh_progress = Arrived\<rparr>]"

section \<open>Scoped broadcast\<close>

lemma fold_send_if:
  "fold (\<lambda>client s. if readyState s client = OPEN \<and> Q (clientActiveTab s client)
                     then send client msg s else s) cs st
   = st\<lparr>effects := effects st @
          map (\<lambda>c. Send c msg) (filter (\<lambda>c. readyState st c = OPEN \<and> Q (clientActiveTab st c)) cs)\<rparr>"
proof (induction cs arbitrary: st)
  case Nil
  show ?case by simp
next
  case (Cons c cs)
  show ?case by (simp add: Cons.IH send_def)
qed

lemma broadcastToTabViewers_eq:
  "broadcastToTabViewers tid msg st =
     st\<lparr>effects := effects st @ map (\<lambda>c. Send c msg)
        (filter (\<lambda>c. readyState st c = OPEN \<and> clientActiveTab st c = Some tid) (clients st))\<rparr>"
  unfolding broadcastToTabViewers_def
  using fold_send_if [where Q = "\<lambda>b. b = Some tid"] by simp

lemma broadcastAll_eq:
  "broadcastAll msg st =
     st\<lparr>effects := effects st @ map (\<lambda>c. Send c msg)
        (filter (\<lambda>c. readyState st c = OPEN) (clients st))\<rparr>"
  unfolding broadcastAll_def
  using fold_send_if [where Q = "\<lambda>b. True"] by simp

text \<open>
  Claim C1. \<^verbatim>\<open>broadcastToTabViewers(tabId, msg)\<close> changes nothing but the sends, and it
  sends \<open>msg\<close> exactly to the open connections whose binding is \<open>tabId\<close>, once each in
  the order of \<^verbatim>\<open>wss.clients\<close>. Hence a session event of tab \<open>t2\<close> is never sent to a
  connection bound to another tab \<open>t1\<close>, and a connection with no binding or a different
  binding receives nothing.
\<close>

theorem scoped_broadcast:
  "broadcastToTabViewers tid msg st =
     st\<lparr>effects := effects st @ map (\<lambda>c. Send c msg)
        (filter (\<lambda>c. readyState st c = OPEN \<and> clientActiveTab st c = Some tid) (clients st))\<rparr>
   \<and> (\<forall>c t1 t2 ev m. t1 \<noteq> t2 \<and> clientActiveTab st c = Some t1 \<longrightarrow>
         Send c m \<notin> set (drop (length (effects st)) (effects (sessionEvent t2 ev st))))
   \<and> (\<forall>c m. clientActiveTab st c \<noteq> Some tid \<longrightarrow>
         Send c m \<notin> set (drop (length (effects st)) (effects (broadcastToTabViewers tid msg st))))"
  by (auto simp: broadcastToTabViewers_eq sessionEvent_def)

theorem scoped_broadcast_witness:
  "''B'' \<noteq> ''A'' \<and> clientActiveTab demo3 2 = Some ''B''
   \<and> Send 2 (SessionEvent ''agent_start'')
         \<notin> set (drop (length (effects demo3)) (effects (sessionEvent ''A'' ''agent_start'' demo3)))
   \<and> effects (broadcastToTabViewers ''B'' (SessionEvent ''agent_start'') demo3)
       = [Send 2 (SessionEvent ''agent_start''), Send 3 (SessionEvent ''agent_start'')]"
proof -
  have b: "clientActiveTab demo3 2 = Some ''B''" by (simp add: demo3_def)
  have "Send 2 (SessionEvent ''agent_start'')
          \<notin> set (drop (length (effects demo3)) (effects (sessionEvent ''A'' ''agent_start'' demo3)))"
    using scoped_broadcast [of "''A''" "SessionEvent ''agent_start''" demo3] b by blast
  moreover have "effects (broadcastToTabViewers ''B'' (SessionEvent ''agent_start'') demo3)
       = [Send 2 (SessionEvent ''agent_start''), Send 3 (SessionEvent ''agent_start'')]"
    using scoped_broadcast [of "''B''" "SessionEvent ''agent_start''" demo3]
    by (simp add: demo3_def)
  ultimately show ?thesis using b by simp
qed

section \<open>Tab registry: closing a tab\<close>

lemma indexOf_ge: "- 1 \<le> indexOf xs x"
  by (induction xs) (auto simp: Let_def)

lemma indexOf_notin: "x \<notin> set xs \<Longrightarrow> indexOf xs x = - 1"
  by (induction xs) (auto simp: Let_def)

lemma indexOf_append: "x \<notin> set pre \<Longrightarrow> indexOf (pre @ x # post) x = int (length pre)"
  by (induction pre) (auto simp: Let_def)

lemma splice1_append: "splice1 (pre @ x # post) (int (length pre)) = pre @ post"
  by (simp add: splice1_def)

lemma map_of_keys: "map_of al k \<noteq> None \<longleftrightarrow> k \<in> set (map fst al)"
  by (simp add: map_of_eq_None_iff)

lemma registry_length: "registry_inv st \<Longrightarrow> length (tabs st) = length (tabOrder st)"
proof -
  assume a: "registry_inv st"
  then have "card (set (tabOrder st)) = card (set (map fst (tabs st)))"
    by (simp add: registry_inv_def)
  with a show ?thesis
    using distinct_card [of "tabOrder st"] distinct_card [of "map fst (tabs st)"]
    by (simp add: registry_inv_def)
qed

lemma registry_entry:
  assumes "registry_inv st" "tid \<in> set (tabOrder st)"
  obtains entry where "map_of (tabs st) tid = Some entry" "tabId entry = tid"
proof -
  from assms have "tid \<in> set (map fst (tabs st))" by (simp add: registry_inv_def)
  then obtain e where e: "map_of (tabs st) tid = Some e"
    using map_of_keys [of "tabs st" tid] by auto
  then have "(tid, e) \<in> set (tabs st)" by (rule map_of_SomeD)
  with assms have "tabId e = tid" by (force simp: registry_inv_def)
  with e that show thesis by blast
qed

lemma remaining_filter:
  assumes "distinct (pre @ tid # post)" "\<forall>i \<in> set (pre @ tid # post). f i \<noteq> None"
  shows "filter (\<lambda>i. i \<noteq> tid \<and> f i \<noteq> None) (pre @ tid # post) = pre @ post"
proof -
  have "filter (\<lambda>i. i \<noteq> tid \<and> f i \<noteq> None) pre = pre"
    using assms by (intro filter_True) auto
  moreover have "filter (\<lambda>i. i \<noteq> tid \<and> f i \<noteq> None) post = post"
    using assms by (intro filter_True) auto
  ultimately show ?thesis by simp
qed

lemma replacement_pick:
  assumes "pre \<noteq> [] \<or> post \<noteq> []"
  shows "nullish (at_index (pre @ post) (max 0 (int (length pre) - 1)))
           (nullish (at_index (pre @ post) 0) None)
         = Some (if pre = [] then hd post else last pre)"
proof (cases "pre = []")
  case True
  with assms show ?thesis
    by (simp add: nullish_def at_index_def hd_conv_nth)
next
  case False
  then obtain n where n: "length pre = Suc n" by (cases pre) auto
  then have "max 0 (int (length pre) - 1) = int n" by simp
  with False n show ?thesis
    by (simp add: nullish_def at_index_def nth_append last_conv_nth)
qed

lemma closeTab_unfold:
  assumes "map_of (tabs st) tid = Some entry" "1 < length (tabs st)"
    and "R = filter (\<lambda>i. i \<noteq> tid \<and> map_of (tabs st) i \<noteq> None) (tabOrder st)"
    and "I = indexOf (tabOrder st) tid"
  shows "closeTab tid st =
           (nullish (at_index R (max 0 (I - 1))) (nullish (at_index R 0) None),
            if I \<noteq> - 1
            then st\<lparr>effects := effects st @ [Dispose (tabId entry)],
                    tabs := AList.delete tid (tabs st),
                    tabOrder := splice1 (tabOrder st) I\<rparr>
            else st\<lparr>effects := effects st @ [Dispose (tabId entry)],
                    tabs := AList.delete tid (tabs st)\<rparr>)"
  using assms unfolding closeTab_def by (simp add: Let_def)

lemma closeTab_eq:
  assumes inv: "registry_inv st" and two: "2 \<le> length (tabs st)"
    and ord: "tabOrder st = pre @ tid # post"
  shows "closeTab tid st =
           (Some (if pre = [] then hd post else last pre),
            st\<lparr>effects := effects st @ [Dispose tid],
               tabs := AList.delete tid (tabs st),
               tabOrder := pre @ post\<rparr>)"
proof -
  from ord have mem: "tid \<in> set (tabOrder st)" by simp
  from inv mem obtain entry where e: "map_of (tabs st) tid = Some entry" "tabId entry = tid"
    by (rule registry_entry)
  from inv ord have d: "distinct (pre @ tid # post)" by (simp add: registry_inv_def)
  then have nin: "tid \<notin> set pre" by simp
  have has: "\<forall>i \<in> set (pre @ tid # post). map_of (tabs st) i \<noteq> None"
    using inv ord map_of_keys [of "tabs st"] by (simp add: registry_inv_def)
  have rem: "filter (\<lambda>i. i \<noteq> tid \<and> map_of (tabs st) i \<noteq> None) (tabOrder st) = pre @ post"
    using remaining_filter [OF d has] ord by simp
  from inv two ord have "2 \<le> length (pre @ tid # post)"
    using registry_length [OF inv] by simp
  then have ne: "pre \<noteq> [] \<or> post \<noteq> []" by (cases pre; cases post) auto
  have idx: "indexOf (tabOrder st) tid = int (length pre)"
    using indexOf_append [OF nin] ord by simp
  have big: "1 < length (tabs st)" using two by simp
  have spl: "splice1 (tabOrder st) (int (length pre)) = pre @ post"
    using splice1_append [of pre tid post] ord by simp
  show ?thesis
    unfolding closeTab_unfold [OF e(1) big rem [symmetric] idx [symmetric]]
    by (simp add: e replacement_pick [OF ne] spl)
qed

text \<open>The registry invariant is kept by both operations of the registry; \<^verbatim>\<open>createTab\<close>
  needs the UUID to be new.\<close>

lemma update_fresh: "k \<notin> set (map fst al) \<Longrightarrow> AList.update k v al = al @ [(k, v)]"
  by (induction al) auto

lemma createTab_keeps_invariant:
  assumes "registry_inv st" and "rt_uuid rt \<notin> set (tabOrder st)"
  shows "registry_inv (snd (createTab rt nm sessionPath st))"
proof -
  from assms have fresh: "rt_uuid rt \<notin> set (map fst (tabs st))"
    by (simp add: registry_inv_def)
  show ?thesis
    using assms fresh
    by (auto simp: createTab_def Let_def registry_inv_def update_fresh
          split: sum.splits option.splits)
qed

lemma closeTab_keeps_invariant:
  assumes "registry_inv st"
  shows "registry_inv (snd (closeTab tid st))"
proof (cases "map_of (tabs st) tid")
  case None
  with assms show ?thesis by (simp add: closeTab_def)
next
  case (Some entry)
  show ?thesis
  proof (cases "length (tabs st) \<le> 1")
    case True
    with Some assms show ?thesis by (simp add: closeTab_def)
  next
    case False
    then have two: "2 \<le> length (tabs st)" by simp
    from Some have "tid \<in> set (map fst (tabs st))" using map_of_keys [of "tabs st" tid] by simp
    with assms have "tid \<in> set (tabOrder st)" by (simp add: registry_inv_def)
    then obtain pre post where ord: "tabOrder st = pre @ tid # post"
      by (auto dest: split_list)
    from assms ord have d: "distinct (pre @ tid # post)" by (simp add: registry_inv_def)
    have keys: "set (map fst (AList.delete tid (tabs st))) = set (pre @ post)"
      using assms ord d by (auto simp: AList.delete_keys registry_inv_def)
    have dk: "distinct (map fst (AList.delete tid (tabs st)))"
      using assms by (simp add: registry_inv_def AList.distinct_delete)
    have sub: "set (AList.delete tid (tabs st)) \<subseteq> set (tabs st)"
      by (auto simp: AList.delete_eq)
    have ent: "\<forall>p \<in> set (AList.delete tid (tabs st)). tabId (snd p) = fst p"
      using assms sub by (auto simp: registry_inv_def)
    from d have dord: "distinct (pre @ post)" by simp
    have "registry_inv (st\<lparr>effects := effects st @ [Dispose tid],
               tabs := AList.delete tid (tabs st), tabOrder := pre @ post\<rparr>)"
      unfolding registry_inv_def using dk ent dord keys by simp
    then show ?thesis using closeTab_eq [OF assms two ord] by simp
  qed
qed

text \<open>
  Claim C2. When the registry holds exactly one tab, \<^verbatim>\<open>closeTab\<close> on that tab returns the
  tab's own identifier and leaves the whole state as it was: order, mapping, and no
  \<^verbatim>\<open>dispose\<close>. The \<^verbatim>\<open>close_tab\<close> command is a no-op there as well.
\<close>

theorem closeTab_last_tab:
  assumes "length (tabs st) = 1" and "map_of (tabs st) tid \<noteq> None"
  shows "closeTab tid st = (Some tid, st) \<and> case_close_tab tid st = (None, st)"
proof -
  from assms obtain entry where e: "map_of (tabs st) tid = Some entry" by auto
  with assms(1) show ?thesis by (simp add: closeTab_def case_close_tab_def)
qed

theorem closeTab_last_tab_witness:
  "length (tabs demo1) = 1 \<and> map_of (tabs demo1) ''A'' \<noteq> None
   \<and> closeTab ''A'' demo1 = (Some ''A'', demo1) \<and> tabOrder demo1 = [''A'']"
proof -
  have h1: "length (tabs demo1) = 1" by (simp add: demo1_def)
  have h2: "map_of (tabs demo1) ''A'' \<noteq> None" by (simp add: demo1_def)
  have "tabOrder demo1 = [''A'']" by (simp add: demo1_def)
  with h1 h2 closeTab_last_tab [OF h1 h2] show ?thesis by simp
qed

text \<open>
  Claim C3. In a registry of at least two tabs that satisfies the registry invariant,
  closing the tab \<open>tid\<close> that stands between \<open>pre\<close> and \<open>post\<close> in creation order
  returns the tab immediately before it when there is one (the last of \<open>pre\<close>), and the
  first remaining tab otherwise (the head of \<open>post\<close>); the tab is removed from order and
  mapping. With order [A,B,C] closing B yields A, with order [A,B] closing A yields B.
\<close>

theorem closeTab_replacement:
  assumes "registry_inv st" and "2 \<le> length (tabs st)" and "tabOrder st = pre @ tid # post"
  shows "fst (closeTab tid st) = Some (if pre = [] then hd post else last pre)
         \<and> tabOrder (snd (closeTab tid st)) = pre @ post
         \<and> map_of (tabs (snd (closeTab tid st))) = (map_of (tabs st))(tid := None)"
  using closeTab_eq [OF assms] by (simp add: AList.delete_conv')

theorem closeTab_replacement_witness:
  "registry_inv demo3 \<and> 2 \<le> length (tabs demo3) \<and> tabOrder demo3 = [''A''] @ ''B'' # [''C'']
   \<and> fst (closeTab ''B'' demo3) = Some ''A''
   \<and> registry_inv demo2 \<and> 2 \<le> length (tabs demo2) \<and> tabOrder demo2 = [] @ ''A'' # [''B'']
   \<and> fst (closeTab ''A'' demo2) = Some ''B''"
proof -
  have i3: "registry_inv demo3" by (simp add: registry_inv_def demo3_def mkEntry_def)
  have l3: "2 \<le> length (tabs demo3)" by (simp add: demo3_def)
  have o3: "tabOrder demo3 = [''A''] @ ''B'' # [''C'']" by (simp add: demo3_def)
  have i2: "registry_inv demo2" by (simp add: registry_inv_def demo2_def mkEntry_def)
  have l2: "2 \<le> length (tabs demo2)" by (simp add: demo2_def)
  have o2: "tabOrder demo2 = [] @ ''A'' # [''B'']" by (simp add: demo2_def)
  from closeTab_replacement [OF i3 l3 o3] closeTab_replacement [OF i2 l2 o2] i3 l3 o3 i2 l2 o2
  show ?thesis by simp
qed

section \<open>Closing a tab through the dispatcher\<close>

lemma redirectClient_fields [simp]:
  "tabs (redirectClient cl rep c st) = tabs st"
  "tabOrder (redirectClient cl rep c st) = tabOrder st"
  "readyState (redirectClient cl rep c st) = readyState st"
  "clients (redirectClient cl rep c st) = clients st"
  by (simp_all add: redirectClient_def sendStateSync_def send_def setActiveTab_def
        split: option.splits)

lemma fallbackEntry_cong:
  "tabs s = tabs st \<Longrightarrow> tabOrder s = tabOrder st \<Longrightarrow> fallbackEntry rep s = fallbackEntry rep st"
  by (simp add: fallbackEntry_def split: option.splits)

lemma fold_redirect:
  assumes "fallbackEntry rep st = Some f" and "tabId f \<noteq> closed" and "distinct cs"
  shows "fold (redirectClient closed rep) cs st =
           st\<lparr>clientActiveTab :=
                (\<lambda>c. if c \<in> set cs \<and> readyState st c = OPEN \<and> clientActiveTab st c = Some closed
                      then Some (tabId f) else clientActiveTab st c),
              effects := effects st @ map (\<lambda>c. Send c (stateSyncMsg f))
                (filter (\<lambda>c. readyState st c = OPEN \<and> clientActiveTab st c = Some closed) cs)\<rparr>"
  using assms
proof (induction cs arbitrary: st)
  case Nil
  show ?case by simp
next
  case (Cons c cs)
  let ?s1 = "redirectClient closed rep c st"
  have fb: "fallbackEntry rep ?s1 = Some f"
    using Cons.prems(1) fallbackEntry_cong [of ?s1 st rep] by simp
  from Cons.prems(3) have dc: "distinct cs" and nc: "c \<notin> set cs" by simp_all
  have IH: "fold (redirectClient closed rep) cs ?s1 =
           ?s1\<lparr>clientActiveTab :=
                (\<lambda>c. if c \<in> set cs \<and> readyState ?s1 c = OPEN \<and> clientActiveTab ?s1 c = Some closed
                      then Some (tabId f) else clientActiveTab ?s1 c),
              effects := effects ?s1 @ map (\<lambda>c. Send c (stateSyncMsg f))
                (filter (\<lambda>c. readyState ?s1 c = OPEN \<and> clientActiveTab ?s1 c = Some closed) cs)\<rparr>"
    by (rule Cons.IH [OF fb Cons.prems(2) dc])
  have same: "\<And>x. x \<in> set cs \<Longrightarrow> clientActiveTab ?s1 x = clientActiveTab st x"
    using nc by (auto simp: redirectClient_def sendStateSync_def send_def setActiveTab_def
                   split: option.splits)
  have filt: "filter (\<lambda>c. readyState ?s1 c = OPEN \<and> clientActiveTab ?s1 c = Some closed) cs
            = filter (\<lambda>c. readyState st c = OPEN \<and> clientActiveTab st c = Some closed) cs"
    by (rule filter_cong) (auto simp: same)
  have s1: "?s1 = (if readyState st c = OPEN \<and> clientActiveTab st c = Some closed
                   then sendStateSync c f (setActiveTab c (tabId f) st) else st)"
    using Cons.prems(1) by (simp add: redirectClient_def)
  have fn: "(\<lambda>ca. if ca \<in> set cs \<and> readyState ?s1 ca = OPEN \<and> clientActiveTab ?s1 ca = Some closed
                  then Some (tabId f) else clientActiveTab ?s1 ca)
          = (\<lambda>ca. if ca \<in> set (c # cs) \<and> readyState st ca = OPEN \<and> clientActiveTab st ca = Some closed
                  then Some (tabId f) else clientActiveTab st ca)"
  proof (rule ext)
    fix ca
    show "(if ca \<in> set cs \<and> readyState ?s1 ca = OPEN \<and> clientActiveTab ?s1 ca = Some closed
           then Some (tabId f) else clientActiveTab ?s1 ca)
        = (if ca \<in> set (c # cs) \<and> readyState st ca = OPEN \<and> clientActiveTab st ca = Some closed
           then Some (tabId f) else clientActiveTab st ca)"
    proof (cases "ca = c")
      case True
      with nc Cons.prems(2) show ?thesis
        by (simp add: s1 sendStateSync_def send_def setActiveTab_def)
    next
      case False
      then have "clientActiveTab ?s1 ca = clientActiveTab st ca"
        by (simp add: s1 sendStateSync_def send_def setActiveTab_def)
      with False show ?thesis by simp
    qed
  qed
  have eff: "effects ?s1 @ map (\<lambda>c. Send c (stateSyncMsg f))
                (filter (\<lambda>c. readyState st c = OPEN \<and> clientActiveTab st c = Some closed) cs)
           = effects st @ map (\<lambda>c. Send c (stateSyncMsg f))
                (filter (\<lambda>c. readyState st c = OPEN \<and> clientActiveTab st c = Some closed) (c # cs))"
    by (simp add: s1 sendStateSync_def send_def setActiveTab_def)
  have "fold (redirectClient closed rep) (c # cs) st = fold (redirectClient closed rep) cs ?s1"
    by simp
  also have "\<dots> = ?s1\<lparr>clientActiveTab :=
                (\<lambda>ca. if ca \<in> set (c # cs) \<and> readyState st ca = OPEN \<and> clientActiveTab st ca = Some closed
                      then Some (tabId f) else clientActiveTab st ca),
              effects := effects st @ map (\<lambda>c. Send c (stateSyncMsg f))
                (filter (\<lambda>c. readyState st c = OPEN \<and> clientActiveTab st c = Some closed) (c # cs))\<rparr>"
    by (simp only: IH filt fn eff)
  also have "\<dots> = st\<lparr>clientActiveTab :=
                (\<lambda>ca. if ca \<in> set (c # cs) \<and> readyState st ca = OPEN \<and> clientActiveTab st ca = Some closed
                      then Some (tabId f) else clientActiveTab st ca),
              effects := effects st @ map (\<lambda>c. Send c (stateSyncMsg f))
                (filter (\<lambda>c. readyState st c = OPEN \<and> clientActiveTab st c = Some closed) (c # cs))\<rparr>"
    by (simp add: s1 sendStateSync_def send_def setActiveTab_def)
  finally show ?case .
qed


lemma replacement_member:
  assumes "distinct (pre @ tid # post)" and "pre \<noteq> [] \<or> post \<noteq> []"
  shows "(if pre = [] then hd post else last pre) \<in> set (pre @ post)"
    and "(if pre = [] then hd post else last pre) \<noteq> tid"
  using assms by (cases "pre = []"; cases "post = []"; auto)+

lemma tabsList_after_close:
  assumes "\<forall>i \<in> set xs. i \<noteq> tid \<and> (\<forall>e. m i = Some e \<longrightarrow> tabId e = i)"
  shows "List.map_filter (\<lambda>i. map_option (\<lambda>t. (tabId t, name t)) ((m(tid := None)) i)) xs
       = filter (\<lambda>p. fst p \<noteq> tid) (List.map_filter (\<lambda>i. map_option (\<lambda>t. (tabId t, name t)) (m i)) xs)"
  using assms
proof (induction xs)
  case Nil
  show ?case by (simp add: map_filter_simps)
next
  case (Cons x xs)
  then show ?case by (cases "m x") (auto simp: map_filter_simps)
qed

lemma getTabsList_closed:
  assumes inv: "registry_inv st" and ord: "tabOrder st = pre @ tid # post"
  shows "getTabsList (st\<lparr>effects := E, tabs := AList.delete tid (tabs st), tabOrder := pre @ post\<rparr>)
       = filter (\<lambda>p. fst p \<noteq> tid) (getTabsList st)"
proof -
  have ent: "\<And>i e. map_of (tabs st) i = Some e \<Longrightarrow> tabId e = i"
  proof -
    fix i e assume "map_of (tabs st) i = Some e"
    then have "(i, e) \<in> set (tabs st)" by (rule map_of_SomeD)
    with inv show "tabId e = i" by (force simp: registry_inv_def)
  qed
  from inv ord have d: "distinct (pre @ tid # post)" by (simp add: registry_inv_def)
  then have a: "\<forall>i \<in> set (pre @ post). i \<noteq> tid \<and> (\<forall>e. map_of (tabs st) i = Some e \<longrightarrow> tabId e = i)"
    using ent by auto
  have tidOut: "filter (\<lambda>p. fst p \<noteq> tid)
                  (List.map_filter (\<lambda>i. map_option (\<lambda>t. (tabId t, name t)) (map_of (tabs st) i)) [tid]) = []"
    using ent by (cases "map_of (tabs st) tid") (auto simp: map_filter_simps)
  have split: "pre @ tid # post = pre @ [tid] @ post" by simp
  have mf: "\<And>g xs ys. List.map_filter g (xs @ ys) = List.map_filter g xs @ List.map_filter g ys"
    by (simp add: List.map_filter_def)
  show ?thesis
    unfolding getTabsList_def
    using tabsList_after_close [OF a] tidOut
    by (simp add: ord AList.delete_conv' split mf del: append_Cons)
qed

lemma close_flow_eq:
  assumes inv: "registry_inv st" and two: "2 \<le> length (tabs st)"
    and ord: "tabOrder st = pre @ tid # post"
    and nonempty: "[] \<notin> set (tabOrder st)" and dist: "distinct (clients st)"
  shows "\<exists>f. map_of (tabs st) (if pre = [] then hd post else last pre) = Some f
           \<and> tabId f = (if pre = [] then hd post else last pre)
           \<and> (case closeTab tid st of
                 (replacementId, st1) \<Rightarrow> redirectClients tid replacementId (broadcastTabsList st1))
             = st\<lparr>tabOrder := pre @ post,
                  tabs := AList.delete tid (tabs st),
                  clientActiveTab :=
                    (\<lambda>c. if c \<in> set (clients st) \<and> readyState st c = OPEN
                             \<and> clientActiveTab st c = Some tid
                          then Some (tabId f) else clientActiveTab st c),
                  effects := effects st @ [Dispose tid]
                    @ map (\<lambda>c. Send c (TabsUpdate (filter (\<lambda>p. fst p \<noteq> tid) (getTabsList st))))
                        (filter (\<lambda>c. readyState st c = OPEN) (clients st))
                    @ map (\<lambda>c. Send c (stateSyncMsg f))
                        (filter (\<lambda>c. readyState st c = OPEN \<and> clientActiveTab st c = Some tid)
                           (clients st))\<rparr>"
proof -
  let ?r = "if pre = [] then hd post else last pre"
  from inv ord have d: "distinct (pre @ tid # post)" by (simp add: registry_inv_def)
  from inv two ord have "2 \<le> length (pre @ tid # post)"
    using registry_length [OF inv] by simp
  then have ne: "pre \<noteq> [] \<or> post \<noteq> []" by (cases pre; cases post) auto
  have rin: "?r \<in> set (pre @ post)" and rne: "?r \<noteq> tid"
    using replacement_member [OF d ne] by blast+
  from rin ord have rmem: "?r \<in> set (tabOrder st)" by auto
  from inv rmem obtain f where f: "map_of (tabs st) ?r = Some f" "tabId f = ?r"
    by (rule registry_entry)
  from rmem nonempty have rnz: "?r \<noteq> []" by metis
  let ?E = "effects st @ [Dispose tid]"
  let ?st1 = "st\<lparr>effects := ?E, tabs := AList.delete tid (tabs st), tabOrder := pre @ post\<rparr>"
  have ct: "closeTab tid st = (Some ?r, ?st1)" by (rule closeTab_eq [OF inv two ord])
  let ?st2 = "broadcastTabsList ?st1"
  have tl: "getTabsList ?st1 = filter (\<lambda>p. fst p \<noteq> tid) (getTabsList st)"
    by (rule getTabsList_closed [OF inv ord])
  have st2: "?st2 = ?st1\<lparr>effects := ?E @ map (\<lambda>c. Send c (TabsUpdate (filter (\<lambda>p. fst p \<noteq> tid) (getTabsList st))))
                        (filter (\<lambda>c. readyState st c = OPEN) (clients st))\<rparr>"
    unfolding broadcastTabsList_def tl broadcastAll_eq by simp
  have fb: "fallbackEntry (Some ?r) ?st2 = Some f"
    using f rne rnz unfolding st2 by (simp add: fallbackEntry_def truthy_def AList.delete_conv')
  have ft: "tabId f \<noteq> tid" using f rne by simp
  have dc: "distinct (clients ?st2)" using dist unfolding st2 by simp
  have "redirectClients tid (Some ?r) ?st2 =
          ?st2\<lparr>clientActiveTab :=
                (\<lambda>c. if c \<in> set (clients ?st2) \<and> readyState ?st2 c = OPEN \<and> clientActiveTab ?st2 c = Some tid
                      then Some (tabId f) else clientActiveTab ?st2 c),
              effects := effects ?st2 @ map (\<lambda>c. Send c (stateSyncMsg f))
                (filter (\<lambda>c. readyState ?st2 c = OPEN \<and> clientActiveTab ?st2 c = Some tid) (clients ?st2))\<rparr>"
    unfolding redirectClients_def by (rule fold_redirect [OF fb ft dc])
  then have "redirectClients tid (Some ?r) ?st2 =
             st\<lparr>tabOrder := pre @ post,
                  tabs := AList.delete tid (tabs st),
                  clientActiveTab :=
                    (\<lambda>c. if c \<in> set (clients st) \<and> readyState st c = OPEN
                             \<and> clientActiveTab st c = Some tid
                          then Some (tabId f) else clientActiveTab st c),
                  effects := effects st @ [Dispose tid]
                    @ map (\<lambda>c. Send c (TabsUpdate (filter (\<lambda>p. fst p \<noteq> tid) (getTabsList st))))
                        (filter (\<lambda>c. readyState st c = OPEN) (clients st))
                    @ map (\<lambda>c. Send c (stateSyncMsg f))
                        (filter (\<lambda>c. readyState st c = OPEN \<and> clientActiveTab st c = Some tid)
                           (clients st))\<rparr>"
    unfolding st2 by (simp cong: if_cong)
  with f show ?thesis unfolding ct by auto
qed

text \<open>
  Claim C6. A \<^verbatim>\<open>close_tab\<close> command for the tab \<open>tid\<close> of a registry with at least two
  tabs ends normally in the state described here: the tab is gone from order and mapping
  and its session disposed; the updated tab list (the old one without \<open>tid\<close>) is sent
  to every open connection; every open connection that was bound to \<open>tid\<close> is bound to
  the replacement (the predecessor, else the first remaining tab) and is sent one
  \<^verbatim>\<open>state_sync\<close> of the replacement; every other binding is unchanged and no other
  \<^verbatim>\<open>state_sync\<close> is sent. Tab identifiers are non-empty (they are UUIDs) and
  \<^verbatim>\<open>wss.clients\<close> holds no connection twice (it is a set).
\<close>

theorem close_tab_rebinds:
  assumes "registry_inv st" and "2 \<le> length (tabs st)" and "tabOrder st = pre @ tid # post"
    and "[] \<notin> set (tabOrder st)" and "distinct (clients st)"
  shows "\<exists>f. map_of (tabs st) (if pre = [] then hd post else last pre) = Some f
           \<and> tabId f = (if pre = [] then hd post else last pre)
           \<and> onMessage ws (CloseTabCmd tid) env st
             = st\<lparr>tabOrder := pre @ post,
                  tabs := AList.delete tid (tabs st),
                  clientActiveTab :=
                    (\<lambda>c. if c \<in> set (clients st) \<and> readyState st c = OPEN
                             \<and> clientActiveTab st c = Some tid
                          then Some (tabId f) else clientActiveTab st c),
                  effects := effects st @ [Dispose tid]
                    @ map (\<lambda>c. Send c (TabsUpdate (filter (\<lambda>p. fst p \<noteq> tid) (getTabsList st))))
                        (filter (\<lambda>c. readyState st c = OPEN) (clients st))
                    @ map (\<lambda>c. Send c (stateSyncMsg f))
                        (filter (\<lambda>c. readyState st c = OPEN \<and> clientActiveTab st c = Some tid)
                           (clients st))\<rparr>"
proof -
  from assms(1) have "set (tabOrder st) = set (map fst (tabs st))"
    by (simp add: registry_inv_def)
  moreover from assms(3) have "tid \<in> set (tabOrder st)" by simp
  ultimately have "tid \<in> set (map fst (tabs st))" by blast
  then have has: "map_of (tabs st) tid \<noteq> None" using map_of_keys [of "tabs st" tid] by simp
  from assms(2) have big: "\<not> length (tabs st) \<le> 1" by simp
  have "onMessage ws (CloseTabCmd tid) env st =
          (case closeTab tid st of
             (replacementId, st1) \<Rightarrow> redirectClients tid replacementId (broadcastTabsList st1))"
    using has big by (auto simp: onMessage_def case_close_tab_def split: prod.splits)
  with close_flow_eq [OF assms] show ?thesis by simp
qed

theorem close_tab_rebinds_witness:
  "registry_inv demo3 \<and> 2 \<le> length (tabs demo3) \<and> tabOrder demo3 = [''A''] @ ''B'' # [''C'']
   \<and> [] \<notin> set (tabOrder demo3) \<and> distinct (clients demo3)
   \<and> effects (onMessage 1 (CloseTabCmd ''B'') demoEnv demo3)
       = [Dispose ''B'',
          Send 1 (TabsUpdate [(''A'', ''Session 1''), (''C'', ''Session 3'')]),
          Send 2 (TabsUpdate [(''A'', ''Session 1''), (''C'', ''Session 3'')]),
          Send 3 (TabsUpdate [(''A'', ''Session 1''), (''C'', ''Session 3'')]),
          Send 2 (StateSync ''A'' [] False None ''s1''),
          Send 3 (StateSync ''A'' [] False None ''s1'')]
   \<and> map (clientActiveTab (onMessage 1 (CloseTabCmd ''B'') demoEnv demo3)) [1, 2, 3, 4]
       = [Some ''A'', Some ''A'', Some ''A'', Some ''B'']"
proof -
  have i3: "registry_inv demo3" by (simp add: registry_inv_def demo3_def mkEntry_def)
  have l3: "2 \<le> length (tabs demo3)" by (simp add: demo3_def)
  have o3: "tabOrder demo3 = [''A''] @ ''B'' # [''C'']" by (simp add: demo3_def)
  have n3: "[] \<notin> set (tabOrder demo3)" by (simp add: demo3_def)
  have d3: "distinct (clients demo3)" by (simp add: demo3_def)
  have tl: "getTabsList demo3 = [(''A'', ''Session 1''), (''B'', ''Session 2''), (''C'', ''Session 3'')]"
    by (simp add: getTabsList_def demo3_def mkEntry_def)
  from close_tab_rebinds [OF i3 l3 o3 n3 d3, of 1 demoEnv]
  obtain f where f: "map_of (tabs demo3) ''A'' = Some f"
    and st: "onMessage 1 (CloseTabCmd ''B'') demoEnv demo3
             = demo3\<lparr>tabOrder := [''A''] @ [''C''],
                  tabs := AList.delete ''B'' (tabs demo3),
                  clientActiveTab :=
                    (\<lambda>c. if c \<in> set (clients demo3) \<and> readyState demo3 c = OPEN
                             \<and> clientActiveTab demo3 c = Some ''B''
                          then Some (tabId f) else clientActiveTab demo3 c),
                  effects := effects demo3 @ [Dispose ''B'']
                    @ map (\<lambda>c. Send c (TabsUpdate (filter (\<lambda>p. fst p \<noteq> ''B'') (getTabsList demo3))))
                        (filter (\<lambda>c. readyState demo3 c = OPEN) (clients demo3))
                    @ map (\<lambda>c. Send c (stateSyncMsg f))
                        (filter (\<lambda>c. readyState demo3 c = OPEN \<and> clientActiveTab demo3 c = Some ''B'')
                           (clients demo3))\<rparr>"
    by auto
  from f have fe: "f = mkEntry ''A'' ''Session 1'' ''s1''" by (simp add: demo3_def)
  have e: "effects (onMessage 1 (CloseTabCmd ''B'') demoEnv demo3)
       = [Dispose ''B'',
          Send 1 (TabsUpdate [(''A'', ''Session 1''), (''C'', ''Session 3'')]),
          Send 2 (TabsUpdate [(''A'', ''Session 1''), (''C'', ''Session 3'')]),
          Send 3 (TabsUpdate [(''A'', ''Session 1''), (''C'', ''Session 3'')]),
          Send 2 (StateSync ''A'' [] False None ''s1''),
          Send 3 (StateSync ''A'' [] False None ''s1'')]"
    unfolding st tl by (simp add: fe demo3_def mkEntry_def stateSyncMsg_def)
  have b: "map (clientActiveTab (onMessage 1 (CloseTabCmd ''B'') demoEnv demo3)) [1, 2, 3, 4]
       = [Some ''A'', Some ''A'', Some ''A'', Some ''B'']"
    unfolding st by (simp add: fe demo3_def mkEntry_def)
  from i3 l3 o3 n3 d3 e b show ?thesis by simp
qed

section \<open>Creating a tab when the runtime fails\<close>

text \<open>
  Claim C7. When \<^verbatim>\<open>createAgentSession\<close> rejects, \<^verbatim>\<open>createTab\<close> throws with order and
  mapping untouched (only the name counter has advanced), so the fresh identifier is never
  registered. The \<^verbatim>\<open>new_session\<close> handler then catches the error, logs it and ends: no
  \<^verbatim>\<open>state_sync\<close>, no \<^verbatim>\<open>tabs_update\<close>, no send at all, no rebinding, and the state it
  leaves is the one every later command starts from.
\<close>

theorem createTab_failure:
  assumes "rt_sessionManager (c_runtime env) = Inr stored"
    and "rt_createAgentSession (c_runtime env) = Inl err"
  shows "createTab (c_runtime env) nm sessionPath st = (Inl err, st\<lparr>tabCounter := tabCounter st + 1\<rparr>)
       \<and> onMessage ws NewSession env st
           = st\<lparr>tabCounter := tabCounter st + 1, effects := effects st @ [LogError err]\<rparr>"
  using assms by (simp add: createTab_def onMessage_def case_new_session_def)

theorem createTab_failure_witness:
  "rt_sessionManager (c_runtime demoEnv) = Inr None
   \<and> rt_createAgentSession (c_runtime demoEnv) = Inl ''no api key''
   \<and> tabOrder (onMessage 1 NewSession demoEnv demo1) = [''A'']
   \<and> map fst (tabs (onMessage 1 NewSession demoEnv demo1)) = [''A'']
   \<and> effects (onMessage 1 NewSession demoEnv demo1) = [LogError ''no api key'']"
proof -
  have h1: "rt_sessionManager (c_runtime demoEnv) = Inr None"
    by (simp add: demoEnv_def demoRuntime_def)
  have h2: "rt_createAgentSession (c_runtime demoEnv) = Inl ''no api key''"
    by (simp add: demoEnv_def demoRuntime_def)
  from createTab_failure [OF h1 h2, of None None demo1 1] h1 h2
  show ?thesis by (simp add: demo1_def demo3_def)
qed

section \<open>Opening a saved session that is already open\<close>

text \<open>The segments of \<^verbatim>\<open>createTab\<close> run back to back are \<^const>\<open>createTab\<close>, and the
  segments of the \<^verbatim>\<open>open_session\<close> case run back to back are the case read as one
  block.\<close>

lemma createTab_segments:
  "createTab rt nm sessionPath st =
     (case createTab_begin rt nm sessionPath st of
        (Inl err, st1) \<Rightarrow> (Inl err, st1)
      | (Inr p, st1) \<Rightarrow>
          (case createTab_session p (rt_createAgentSession rt) st1 of
             Inl err \<Rightarrow> (Inl err, st1)
           | Inr entry \<Rightarrow> createTab_bound entry (rt_bindExtensions rt) st1))"
  by (simp add: createTab_def createTab_begin_def createTab_session_def createTab_bound_def Let_def
        split: sum.splits option.splits)

lemma case_open_session_eq:
  "case_open_session ws sessionPath env st =
     (if sessionPath = [] then (None, st)
      else
        (case c_listAll env of
           Inl err \<Rightarrow> (Some err, st)
         | Inr allSessions \<Rightarrow>
             (case find (\<lambda>s. si_path s = sessionPath) allSessions of
                None \<Rightarrow> (None, st)
              | Some info \<Rightarrow>
                  (case find (\<lambda>t. sessionId (session t) = si_id info) (map snd (tabs st)) of
                     Some alreadyOpen \<Rightarrow>
                       (None, sendStateSync ws alreadyOpen (setActiveTab ws (tabId alreadyOpen) st))
                   | None \<Rightarrow>
                       (case createTab (c_runtime env) None (Some sessionPath) st of
                          (Inl err, st1) \<Rightarrow> (Some err, st1)
                        | (Inr newEntry, st1) \<Rightarrow>
                            (None,
                             sendStateSync ws newEntry
                               (broadcastTabsList (setActiveTab ws (tabId newEntry) st1))))))))"
  by (simp add: case_open_session_def open_session_listed_def open_session_created_def
        createTab_def createTab_begin_def createTab_session_def createTab_bound_def Let_def
        split: sum.splits option.splits)

lemma find_map_snd_mem:
  "find P (map snd al) = Some v \<Longrightarrow> v \<in> snd ` set al \<and> P v"
  by (induction al) (auto split: if_splits)

text \<open>
  The already-open branch, read as one block from the resolution of \<^verbatim>\<open>listAll\<close>. An
  \<^verbatim>\<open>open_session\<close> command whose path is listed by the storage with a
  session identifier that a tab's session already has creates no tab: order, mapping and
  counter are unchanged (so is the list of open session identifiers), the requesting
  connection is bound to the first such tab, and the only effect is one \<^verbatim>\<open>state_sync\<close>
  of that tab sent to the requesting connection.
\<close>

theorem open_session_already_open:
  assumes "sessionPath \<noteq> []" and "c_listAll env = Inr allSessions"
    and "find (\<lambda>s. si_path s = sessionPath) allSessions = Some info"
    and "find (\<lambda>t. sessionId (session t) = si_id info) (map snd (tabs st)) = Some alreadyOpen"
  shows "alreadyOpen \<in> snd ` set (tabs st)
       \<and> onMessage ws (OpenSession sessionPath) env st
           = st\<lparr>clientActiveTab := (clientActiveTab st)(ws \<mapsto> tabId alreadyOpen),
                effects := effects st @ [Send ws (stateSyncMsg alreadyOpen)]\<rparr>
       \<and> tabs (onMessage ws (OpenSession sessionPath) env st) = tabs st
       \<and> tabOrder (onMessage ws (OpenSession sessionPath) env st) = tabOrder st"
proof -
  have m: "alreadyOpen \<in> snd ` set (tabs st)"
    using find_map_snd_mem [OF assms(4)] by simp
  have e: "onMessage ws (OpenSession sessionPath) env st
           = st\<lparr>clientActiveTab := (clientActiveTab st)(ws \<mapsto> tabId alreadyOpen),
                effects := effects st @ [Send ws (stateSyncMsg alreadyOpen)]\<rparr>"
    using assms
    by (simp add: onMessage_def case_open_session_eq sendStateSync_def send_def setActiveTab_def)
  from m e show ?thesis by simp
qed


theorem open_session_already_open_witness:
  "''/sessions/one.jsonl'' \<noteq> [] \<and> c_listAll demoEnv = Inr [demoInfo]
   \<and> find (\<lambda>s. si_path s = ''/sessions/one.jsonl'') [demoInfo] = Some demoInfo
   \<and> find (\<lambda>t. sessionId (session t) = si_id demoInfo) (map snd (tabs demo3))
       = Some (mkEntry ''A'' ''Session 1'' ''s1'')
   \<and> clientActiveTab (onMessage 2 (OpenSession ''/sessions/one.jsonl'') demoEnv demo3) 2 = Some ''A''
   \<and> effects (onMessage 2 (OpenSession ''/sessions/one.jsonl'') demoEnv demo3)
       = [Send 2 (StateSync ''A'' [] False None ''s1'')]
   \<and> tabOrder (onMessage 2 (OpenSession ''/sessions/one.jsonl'') demoEnv demo3) = [''A'', ''B'', ''C'']"
proof -
  have h1: "''/sessions/one.jsonl'' \<noteq> []" by simp
  have h2: "c_listAll demoEnv = Inr [demoInfo]" by (simp add: demoEnv_def)
  have h3: "find (\<lambda>s. si_path s = ''/sessions/one.jsonl'') [demoInfo] = Some demoInfo"
    by (simp add: demoInfo_def)
  have h4: "find (\<lambda>t. sessionId (session t) = si_id demoInfo) (map snd (tabs demo3))
       = Some (mkEntry ''A'' ''Session 1'' ''s1'')"
    by (simp add: demoInfo_def demo3_def mkEntry_def)
  from open_session_already_open [OF h1 h2 h3 h4, of 2] h1 h2 h3 h4
  show ?thesis by (simp add: demo3_def mkEntry_def stateSyncMsg_def)
qed

text \<open>
  A handler whose segments run back to back keeps the open session identifiers apart in the
  other branch as well, when the UUID is new and the resumed session carries the identifier
  that the storage lists for the path: the session was not open, so its identifier is new
  among the tabs.
\<close>

lemma broadcast_tabs [simp]:
  "tabs (broadcastTabsList st) = tabs st"
  by (simp add: broadcastTabsList_def broadcastAll_eq)

lemma open_session_keeps_sessions_distinct:
  assumes d: "distinct (map (\<lambda>t. sessionId (session (snd t))) (tabs st))"
    and fresh: "rt_uuid (c_runtime env) \<notin> set (map fst (tabs st))"
    and la: "c_listAll env = Inr allSessions"
    and info: "find (\<lambda>s. si_path s = sessionPath) allSessions = Some info"
    and resumed: "\<And>sess. rt_createAgentSession (c_runtime env) = Inr sess \<Longrightarrow> sessionId sess = si_id info"
  shows "distinct (map (\<lambda>t. sessionId (session (snd t)))
                    (tabs (onMessage ws (OpenSession sessionPath) env st)))"
proof (cases "find (\<lambda>t. sessionId (session t) = si_id info) (map snd (tabs st))")
  case (Some alreadyOpen)
  with d la info show ?thesis
    by (simp add: onMessage_def case_open_session_eq sendStateSync_def send_def setActiveTab_def)
next
  case None
  then have absent: "si_id info \<notin> set (map (\<lambda>t. sessionId (session (snd t))) (tabs st))"
    by (auto simp: find_None_iff)
  show ?thesis
    using d la info None absent resumed
    by (auto simp: onMessage_def case_open_session_eq createTab_def Let_def update_fresh [OF fresh]
          sendStateSync_def send_def setActiveTab_def split: sum.splits option.splits)
qed

text \<open>One handler resumed four times in a row is the message handler on that command.\<close>

lemma open_session_back_to_back:
  "snd (run_handlers [0, 0, 0, 0]
          [\<lparr>oh_ws = ws, oh_sessionPath = sessionPath, oh_env = env, oh_progress = Arrived\<rparr>] st)
   = onMessage ws (OpenSession sessionPath) env st"
  by (simp add: run_handlers_def schedule_step_def open_session_resume_def onMessage_def
        case_open_session_def open_session_listed_def createTab_begin_def createTab_session_def
        createTab_bound_def Let_def
        split: sum.splits option.splits prod.splits open_progress.splits)

text \<open>
  Claim C10 does not hold of the server. Tabs A and B are open on the sessions \<open>s1\<close> and
  \<open>s2\<close>; the saved session \<open>s3\<close> is open in no tab. Two \<^verbatim>\<open>open_session\<close> commands
  for the file of \<open>s3\<close> arrive, the second while the first handler is suspended. Both
  handlers pass the already-open check before either has registered its tab (the check is
  in the second segment, \<^verbatim>\<open>tabs.set\<close> in the fourth), so both create a tab: D and E are
  both open on \<open>s3\<close>. When the first handler ends before the second starts, only D is
  created.
\<close>

theorem open_session_twice_interleaved:
  "oh_sessionPath (demoHandlers ! 0) = ''/sessions/three.jsonl''
   \<and> oh_sessionPath (demoHandlers ! 1) = ''/sessions/three.jsonl''
   \<and> map_of (tabs demo2) ''D'' = None \<and> map_of (tabs demo2) ''E'' = None
   \<and> tabOrder (snd (run_handlers [0, 1, 0, 1, 0, 0, 1, 1] demoHandlers demo2))
       = [''A'', ''B'', ''D'', ''E'']
   \<and> map_of (tabs (snd (run_handlers [0, 1, 0, 1, 0, 0, 1, 1] demoHandlers demo2))) ''D''
       = Some (mkEntry ''D'' ''Session 4'' ''s3'')
   \<and> map_of (tabs (snd (run_handlers [0, 1, 0, 1, 0, 0, 1, 1] demoHandlers demo2))) ''E''
       = Some (mkEntry ''E'' ''Session 4'' ''s3'')
   \<and> tabOrder (snd (run_handlers [0, 0, 0, 0, 1, 1, 1, 1] demoHandlers demo2))
       = [''A'', ''B'', ''D'']"
  by code_simp

section \<open>Deleting a saved session\<close>

lemma availableSessions_cong:
  "tabs s = tabs st \<Longrightarrow> availableSessions l s = availableSessions l st"
  by (simp add: availableSessions_def)

lemma find_tab_key:
  assumes "registry_inv st"
    and "find P (map snd (tabs st)) = Some openTab"
  shows "tabId openTab \<in> set (tabOrder st)"
proof -
  from find_map_snd_mem [OF assms(2)] obtain k where k: "(k, openTab) \<in> set (tabs st)" by auto
  with assms(1) have "tabId openTab = k" by (force simp: registry_inv_def)
  moreover from k have "k \<in> set (map fst (tabs st))" by force
  ultimately show ?thesis using assms(1) by (simp add: registry_inv_def)
qed







section \<open>Asking when the signal is already aborted\<close>

text \<open>
  Claim C8. When the cancellation signal passed to \<^verbatim>\<open>createDialogPromise\<close> is already
  aborted, the call returns a promise resolved to the default value and the state is left
  as it was: no pending entry, no timer, no listener, and no \<^verbatim>\<open>extension_ui_request\<close>
  sent to any connection.
\<close>

theorem ask_after_abort:
  assumes "s \<in> set (aborted st)"
  shows "createDialogPromise uuid (Some s) tmo defaultValue request parseResponse st
           = (Resolved defaultValue, st)"
  using assms by (simp add: createDialogPromise_def signalAborted_def)

theorem ask_after_abort_witness:
  "(7::nat) \<in> set (aborted (demo3\<lparr>aborted := [7]\<rparr>))
   \<and> createDialogPromise ''r1'' (Some 7) (Some 50) (JBool False)
        (ConfirmRequest ''Proceed?'' None (Some 50)) ParseConfirmed (demo3\<lparr>aborted := [7]\<rparr>)
       = (Resolved (JBool False), demo3\<lparr>aborted := [7]\<rparr>)"
proof -
  have h: "(7::nat) \<in> set (aborted (demo3\<lparr>aborted := [7]\<rparr>))" by simp
  from ask_after_abort [OF h] h show ?thesis by simp
qed

section \<open>At-most-once resolution of a correlated request\<close>

lemma act_fields:
  "pendingExtensionRequests (act p v st) = (pendingExtensionRequests st)(d_id p := None)"
  "timers (act p v st) = (if timeoutSet p then removeAll p (timers st) else timers st)"
  "listeners (act p v st) =
     (case d_signal p of None \<Rightarrow> listeners st | Some s \<Rightarrow> removeAll (s, p) (listeners st))"
  "resolutions (act p v st) = resolutions st @ [(p, v)]"
  "aborted (act p v st) = aborted st"
  by (simp_all add: act_def resolve_def cleanup_def Let_def split: option.splits)

lemma act_wf: "ui_wf st \<Longrightarrow> ui_wf (act p v st)"
  by (auto simp: ui_wf_def act_fields split: option.splits if_splits)

lemma act_settles:
  assumes "ui_wf st" and "d \<notin> set (timers st) \<or> timeoutSet d"
  shows "settled d (act d v st)"
proof -
  have "d \<notin> snd ` set (listeners (act d v st))"
  proof
    assume "d \<in> snd ` set (listeners (act d v st))"
    then obtain s where m: "(s, d) \<in> set (listeners (act d v st))" by force
    then have "(s, d) \<in> set (listeners st)"
      by (auto simp: act_fields split: option.splits)
    with assms(1) have "d_signal d = Some s" by (force simp: ui_wf_def)
    with m show False by (simp add: act_fields)
  qed
  moreover have "d \<notin> set (timers (act d v st))"
    using assms(2) by (auto simp: act_fields)
  ultimately show ?thesis by (simp add: settled_def act_fields)
qed

lemma act_other_settled:
  "settled d st \<Longrightarrow> settled d (act p v st)"
  by (auto simp: settled_def act_fields split: option.splits if_splits)

lemma act_other_values:
  "p \<noteq> d \<Longrightarrow> resolved_values d (act p v st) = resolved_values d st"
  by (simp add: resolved_values_def act_fields)

lemma act_self_values:
  "resolved_values d (act d v st) = resolved_values d st @ [v]"
  by (simp add: resolved_values_def act_fields)

text \<open>The three event handlers in terms of act.\<close>

lemma reply_eq:
  "case_extension_ui_response i r st =
     (case pendingExtensionRequests st i of
        None \<Rightarrow> st
      | Some p \<Rightarrow> act p (applyParser (d_parse p) r)
                   (st\<lparr>pendingExtensionRequests := (pendingExtensionRequests st)(i := None)\<rparr>))"
  by (simp add: case_extension_ui_response_def pendingResolve_def act_def split: option.splits)

lemma timer_eq:
  "timerFires p st =
     (if p \<in> set (timers st) then act p (d_default p) (st\<lparr>timers := removeAll p (timers st)\<rparr>)
      else st)"
  by (simp add: timerFires_def onTimeout_def act_def)

lemma dispatch_eq:
  "dispatchAbort s l st =
     (if fst l = s \<and> l \<in> set (listeners st)
      then act (snd l) (d_default (snd l)) (st\<lparr>listeners := removeAll l (listeners st)\<rparr>) else st)"
  by (simp add: dispatchAbort_def onAbort_def act_def)

lemma quiet_act:
  assumes "quiet d vs st" and "p \<noteq> d"
  shows "quiet d vs (act p v st)"
  using assms by (simp add: quiet_def act_wf act_other_settled act_other_values)

lemma quiet_dispatch:
  assumes "quiet d vs st"
  shows "quiet d vs (dispatchAbort s l st)"
proof (cases "fst l = s \<and> l \<in> set (listeners st)")
  case True
  let ?st1 = "st\<lparr>listeners := removeAll l (listeners st)\<rparr>"
  from True assms have ne: "snd l \<noteq> d" by (force simp: quiet_def settled_def)
  from assms have "quiet d vs ?st1"
    by (auto simp: quiet_def ui_wf_def settled_def resolved_values_def)
  from quiet_act [OF this ne] True show ?thesis by (simp add: dispatch_eq)
next
  case False
  with assms show ?thesis by (auto simp: dispatch_eq)
qed

lemma quiet_fold_dispatch:
  "quiet d vs st \<Longrightarrow> quiet d vs (fold (dispatchAbort s) ls st)"
  by (induction ls arbitrary: st) (simp_all add: quiet_dispatch)

lemma quiet_step:
  assumes "quiet d vs st"
  shows "quiet d vs (ui_step ev st)"
proof (cases ev)
  case (Reply i r)
  show ?thesis
  proof (cases "pendingExtensionRequests st i")
    case None
    with Reply assms show ?thesis by (simp add: reply_eq)
  next
    case (Some p)
    let ?st1 = "st\<lparr>pendingExtensionRequests := (pendingExtensionRequests st)(i := None)\<rparr>"
    from assms Some have pid: "d_id p = i" by (simp add: quiet_def ui_wf_def)
    from assms Some pid have ne: "p \<noteq> d" by (auto simp: quiet_def settled_def)
    from assms have "quiet d vs ?st1"
      by (auto simp: quiet_def ui_wf_def settled_def resolved_values_def)
    from quiet_act [OF this ne] Reply Some show ?thesis by (simp add: reply_eq)
  qed
next
  case (TimerFires p)
  show ?thesis
  proof (cases "p \<in> set (timers st)")
    case True
    let ?st1 = "st\<lparr>timers := removeAll p (timers st)\<rparr>"
    from True assms have ne: "p \<noteq> d" by (auto simp: quiet_def settled_def)
    from assms have "quiet d vs ?st1"
      by (auto simp: quiet_def ui_wf_def settled_def resolved_values_def)
    from quiet_act [OF this ne] True TimerFires show ?thesis by (simp add: timer_eq)
  next
    case False
    with TimerFires assms show ?thesis by (simp add: timer_eq)
  qed
next
  case (AbortFires s)
  show ?thesis
  proof (cases "s \<in> set (aborted st)")
    case True
    with AbortFires assms show ?thesis by (simp add: abortFires_def)
  next
    case False
    from assms have "quiet d vs (st\<lparr>aborted := s # aborted st\<rparr>)"
      by (auto simp: quiet_def ui_wf_def settled_def resolved_values_def)
    from quiet_fold_dispatch [OF this] AbortFires False
    show ?thesis by (simp add: abortFires_def)
  qed
qed

lemma quiet_run: "quiet d vs st \<Longrightarrow> quiet d vs (ui_run evs st)"
  unfolding ui_run_def by (induction evs arbitrary: st) (simp_all add: quiet_step)


lemma wf_timer: "ui_wf st \<Longrightarrow> d \<notin> set (timers st) \<or> timeoutSet d"
  by (auto simp: ui_wf_def)

lemma unresolved_dispatch:
  assumes "unresolved s d st" and "snd l \<noteq> d"
  shows "unresolved s d (dispatchAbort s l st)"
proof (cases "fst l = s \<and> l \<in> set (listeners st)")
  case True
  let ?st1 = "st\<lparr>listeners := removeAll l (listeners st)\<rparr>"
  from assms have l: "l \<noteq> (s, d)" by auto
  from assms(1) have wf1: "ui_wf ?st1" by (auto simp: unresolved_def ui_wf_def)
  have "(s, d) \<in> set (listeners (act (snd l) (d_default (snd l)) ?st1))"
    using assms l by (auto simp: unresolved_def act_fields split: option.splits)
  moreover have "resolved_values d ?st1 = []"
    using assms(1) by (simp add: unresolved_def resolved_values_def)
  then have "resolved_values d (act (snd l) (d_default (snd l)) ?st1) = []"
    using assms(2) by (simp add: act_other_values)
  ultimately show ?thesis using True act_wf [OF wf1] by (simp add: dispatch_eq unresolved_def)
next
  case False
  with assms show ?thesis by (auto simp: dispatch_eq)
qed

lemma unresolved_fold:
  "unresolved s d st \<Longrightarrow> \<forall>l \<in> set ls. snd l \<noteq> d \<Longrightarrow>
     unresolved s d (fold (dispatchAbort s) ls st)"
  by (induction ls arbitrary: st) (simp_all add: unresolved_dispatch)

lemma unresolved_hit:
  assumes "unresolved s d st"
  shows "quiet d [d_default d] (dispatchAbort s (s, d) st)"
proof -
  let ?st1 = "st\<lparr>listeners := removeAll (s, d) (listeners st)\<rparr>"
  from assms have wf1: "ui_wf ?st1" by (auto simp: unresolved_def ui_wf_def)
  have v: "resolved_values d ?st1 = []" using assms by (simp add: unresolved_def resolved_values_def)
  have "quiet d [d_default d] (act d (d_default d) ?st1)"
    unfolding quiet_def
    using act_wf [OF wf1] act_settles [OF wf1 wf_timer [OF wf1]] v
    by (simp add: act_self_values)
  with assms show ?thesis by (simp add: dispatch_eq unresolved_def)
qed

lemma abort_settles:
  assumes wf: "ui_wf st" and fresh: "resolved_values d st = []"
    and na: "s \<notin> set (aborted st)" and li: "(s, d) \<in> set (listeners st)"
  shows "quiet d [d_default d] (abortFires s st)"
proof -
  from li obtain pre post where sp: "listeners st = pre @ (s, d) # post" "(s, d) \<notin> set pre"
    by (auto dest: split_list_first)
  have other: "\<forall>l \<in> set pre. snd l \<noteq> d"
  proof
    fix l assume l: "l \<in> set pre"
    show "snd l \<noteq> d"
    proof
      assume e: "snd l = d"
      from l sp have "l \<in> set (listeners st)" by simp
      with wf have "d_signal (snd l) = Some (fst l)" by (simp add: ui_wf_def)
      moreover from wf li have "d_signal d = Some s" by (force simp: ui_wf_def)
      ultimately have "fst l = s" using e by simp
      with e have "l = (s, d)" by (cases l) simp
      with l sp show False by simp
    qed
  qed
  let ?st0 = "st\<lparr>aborted := s # aborted st\<rparr>"
  have "unresolved s d ?st0"
    using wf fresh li by (simp add: unresolved_def ui_wf_def resolved_values_def)
  then have "unresolved s d (fold (dispatchAbort s) pre ?st0)"
    using other by (rule unresolved_fold)
  then have "quiet d [d_default d] (dispatchAbort s (s, d) (fold (dispatchAbort s) pre ?st0))"
    by (rule unresolved_hit)
  then have "quiet d [d_default d]
               (fold (dispatchAbort s) post (dispatchAbort s (s, d) (fold (dispatchAbort s) pre ?st0)))"
    by (rule quiet_fold_dispatch)
  with na sp show ?thesis by (simp add: abortFires_def)
qed

lemma trigger_settles:
  assumes wf: "ui_wf st" and live: "pendingExtensionRequests st (d_id d) = Some d"
    and fresh: "resolved_values d st = []" and tr: "triggers ev d st"
  shows "quiet d [trigger_value ev d] (ui_step ev st)"
proof (cases ev)
  case (Reply i r)
  let ?st1 = "st\<lparr>pendingExtensionRequests := (pendingExtensionRequests st)(d_id d := None)\<rparr>"
  from wf have wf1: "ui_wf ?st1" by (auto simp: ui_wf_def)
  have v: "resolved_values d ?st1 = []" using fresh by (simp add: resolved_values_def)
  have "quiet d [applyParser (d_parse d) r] (act d (applyParser (d_parse d) r) ?st1)"
    unfolding quiet_def
    using act_wf [OF wf1] act_settles [OF wf1 wf_timer [OF wf1]] v
    by (simp add: act_self_values)
  with Reply tr live show ?thesis by (simp add: reply_eq)
next
  case (TimerFires p)
  let ?st1 = "st\<lparr>timers := removeAll d (timers st)\<rparr>"
  from wf have wf1: "ui_wf ?st1" by (auto simp: ui_wf_def)
  have v: "resolved_values d ?st1 = []" using fresh by (simp add: resolved_values_def)
  have "quiet d [d_default d] (act d (d_default d) ?st1)"
    unfolding quiet_def
    using act_wf [OF wf1] act_settles [OF wf1 wf_timer [OF wf1]] v
    by (simp add: act_self_values)
  with TimerFires tr show ?thesis by (simp add: timer_eq)
next
  case (AbortFires s)
  with tr abort_settles [OF wf fresh, of s] show ?thesis by simp
qed

lemma ask_registers:
  assumes "\<not> signalAborted sig st" and "ui_wf st"
  shows "\<exists>d st'. createDialogPromise uuid sig tmo dv req parse st = (Awaiting d, st')
           \<and> d = \<lparr>d_id = uuid, d_signal = sig, d_timeout = tmo, d_default = dv, d_parse = parse\<rparr>
           \<and> ui_wf st' \<and> pendingExtensionRequests st' uuid = Some d
           \<and> (timeoutSet d \<longrightarrow> d \<in> set (timers st'))
           \<and> (\<forall>s. sig = Some s \<longrightarrow> (s, d) \<in> set (listeners st'))
           \<and> resolutions st' = resolutions st
           \<and> effects st' = effects st @ map (\<lambda>c. Send c (ExtensionUIRequest uuid req))
                                (filter (\<lambda>c. readyState st c = OPEN) (clients st))"
  using assms
  by (cases sig) (auto simp: createDialogPromise_def Let_def broadcastAll_eq ui_wf_def)

lemma demoAsk_eq:
  "demoAsk = demo3\<lparr>pendingExtensionRequests := [''r1'' \<mapsto> demoDialog],
                   timers := [demoDialog], listeners := [(7, demoDialog)],
                   effects := [Send 1 (ExtensionUIRequest ''r1'' (ConfirmRequest ''Proceed?'' None (Some 50))),
                               Send 2 (ExtensionUIRequest ''r1'' (ConfirmRequest ''Proceed?'' None (Some 50))),
                               Send 3 (ExtensionUIRequest ''r1'' (ConfirmRequest ''Proceed?'' None (Some 50)))]\<rparr>"
  by (simp add: demoAsk_def confirm_def createDialogPromise_def signalAborted_def Let_def
        timeoutSet_def broadcastAll_eq demoDialog_def) (simp add: demo3_def)

text \<open>Every event keeps the correlator well-formed.\<close>

lemma ui_wf_dispatch: "ui_wf st \<Longrightarrow> ui_wf (dispatchAbort s l st)"
proof -
  assume wf: "ui_wf st"
  then have "ui_wf (st\<lparr>listeners := removeAll l (listeners st)\<rparr>)" by (auto simp: ui_wf_def)
  from act_wf [OF this] wf show ?thesis by (simp add: dispatch_eq)
qed

lemma ui_wf_step:
  assumes "ui_wf st"
  shows "ui_wf (ui_step ev st)"
proof (cases ev)
  case (Reply i r)
  from assms have "ui_wf (st\<lparr>pendingExtensionRequests := (pendingExtensionRequests st)(i := None)\<rparr>)"
    by (auto simp: ui_wf_def)
  from act_wf [OF this] assms Reply show ?thesis by (simp add: reply_eq split: option.splits)
next
  case (TimerFires p)
  from assms have "ui_wf (st\<lparr>timers := removeAll p (timers st)\<rparr>)" by (auto simp: ui_wf_def)
  from act_wf [OF this] assms TimerFires show ?thesis by (simp add: timer_eq)
next
  case (AbortFires s)
  have f: "\<And>ls st'. ui_wf st' \<Longrightarrow> ui_wf (fold (dispatchAbort s) ls st')"
  proof -
    fix ls st' show "ui_wf st' \<Longrightarrow> ui_wf (fold (dispatchAbort s) ls st')"
      by (induction ls arbitrary: st') (simp_all add: ui_wf_dispatch)
  qed
  from assms have "ui_wf (st\<lparr>aborted := s # aborted st\<rparr>)" by (auto simp: ui_wf_def)
  from f [OF this] assms AbortFires show ?thesis by (simp add: abortFires_def)
qed

text \<open>An abort of a signal that has no listener left only marks the signal.\<close>

lemma dispatch_other_signal: "fst l \<noteq> s \<Longrightarrow> dispatchAbort s l st = st"
  by (simp add: dispatchAbort_def)

lemma fold_dispatch_other_signal:
  "\<forall>l \<in> set ls. fst l \<noteq> s \<Longrightarrow> fold (dispatchAbort s) ls st = st"
  by (induction ls) (simp_all add: dispatch_other_signal)

lemma abort_without_listeners:
  assumes "\<forall>l \<in> set (listeners st). fst l \<noteq> s"
  shows "abortFires s st = (if s \<in> set (aborted st) then st else st\<lparr>aborted := s # aborted st\<rparr>)"
  using assms by (simp add: abortFires_def fold_dispatch_other_signal)

text \<open>
  Claim C4. Take a request \<open>d\<close> that is pending (its entry is in the map and its promise
  has not been resolved) and the first event that concerns it: a reply bearing its
  identifier, its timer firing while armed, or its signal aborting while its listener is
  registered. That event resolves the promise once, to the parsed reply or to the default,
  and leaves no entry, no timer and no listener of \<open>d\<close>. Whatever events follow (replies,
  timers, aborts, for any request), the promise of \<open>d\<close> is never resolved again and its
  entry stays absent; a duplicate reply and a late firing of its timer change nothing at
  all, and a late abort of a signal whose listeners are all gone changes neither the
  pending map nor any outcome.
\<close>

theorem resolves_exactly_once:
  assumes "ui_wf st" and "pendingExtensionRequests st (d_id d) = Some d"
    and "resolved_values d st = []" and "triggers ev d st"
  shows "resolved_values d (ui_step ev st) = [trigger_value ev d]
       \<and> pendingExtensionRequests (ui_step ev st) (d_id d) = None
       \<and> d \<notin> set (timers (ui_step ev st))
       \<and> d \<notin> snd ` set (listeners (ui_step ev st))
       \<and> (\<forall>later. resolved_values d (ui_run later (ui_step ev st)) = [trigger_value ev d]
                  \<and> pendingExtensionRequests (ui_run later (ui_step ev st)) (d_id d) = None)
       \<and> (\<forall>r. ui_step (Reply (d_id d) r) (ui_step ev st) = ui_step ev st)
       \<and> ui_step (TimerFires d) (ui_step ev st) = ui_step ev st
       \<and> (\<forall>s. (\<forall>l \<in> set (listeners (ui_step ev st)). fst l \<noteq> s) \<longrightarrow>
              pendingExtensionRequests (ui_step (AbortFires s) (ui_step ev st))
                = pendingExtensionRequests (ui_step ev st)
              \<and> resolutions (ui_step (AbortFires s) (ui_step ev st)) = resolutions (ui_step ev st))"
proof -
  have q: "quiet d [trigger_value ev d] (ui_step ev st)"
    by (rule trigger_settles [OF assms])
  have later: "\<And>later. quiet d [trigger_value ev d] (ui_run later (ui_step ev st))"
    by (rule quiet_run [OF q])
  have dup: "\<And>r. ui_step (Reply (d_id d) r) (ui_step ev st) = ui_step ev st"
    using q by (simp add: quiet_def settled_def reply_eq)
  have tm: "ui_step (TimerFires d) (ui_step ev st) = ui_step ev st"
    using q by (simp add: quiet_def settled_def timer_eq)
  have ab: "\<And>s. \<forall>l \<in> set (listeners (ui_step ev st)). fst l \<noteq> s \<Longrightarrow>
              pendingExtensionRequests (ui_step (AbortFires s) (ui_step ev st))
                = pendingExtensionRequests (ui_step ev st)
              \<and> resolutions (ui_step (AbortFires s) (ui_step ev st)) = resolutions (ui_step ev st)"
    by (simp add: abort_without_listeners)
  from q later dup tm ab show ?thesis by (simp add: quiet_def settled_def)
qed

theorem resolves_exactly_once_witness:
  "ui_wf demoAsk \<and> pendingExtensionRequests demoAsk (d_id demoDialog) = Some demoDialog
   \<and> resolved_values demoDialog demoAsk = [] \<and> triggers (TimerFires demoDialog) demoDialog demoAsk
   \<and> resolved_values demoDialog
        (ui_run [Reply ''r1'' [(''confirmed'', JBool True)], AbortFires 7]
           (ui_step (TimerFires demoDialog) demoAsk)) = [JBool False]
   \<and> pendingExtensionRequests (ui_step (TimerFires demoDialog) demoAsk) ''r1'' = None
   \<and> listeners (ui_step (TimerFires demoDialog) demoAsk) = []
   \<and> resolutions (ui_step (AbortFires 7) (ui_step (TimerFires demoDialog) demoAsk))
       = [(demoDialog, JBool False)]"
proof -
  have h1: "ui_wf demoAsk"
    by (simp add: demoAsk_eq ui_wf_def) (simp add: demoDialog_def timeoutSet_def)
  have h2: "pendingExtensionRequests demoAsk (d_id demoDialog) = Some demoDialog"
    by (simp add: demoAsk_eq) (simp add: demoDialog_def)
  have h3: "resolved_values demoDialog demoAsk = []"
    by (simp add: demoAsk_eq resolved_values_def demo3_def)
  have h4: "triggers (TimerFires demoDialog) demoDialog demoAsk"
    by (simp add: demoAsk_eq)
  have i: "d_id demoDialog = ''r1''" "d_default demoDialog = JBool False"
    by (simp_all add: demoDialog_def)
  have l: "listeners (ui_step (TimerFires demoDialog) demoAsk) = []"
    by (simp add: demoAsk_eq timer_eq act_fields) (simp add: demoDialog_def timeoutSet_def)
  have r: "resolutions (ui_step (TimerFires demoDialog) demoAsk) = [(demoDialog, JBool False)]"
    by (simp add: demoAsk_eq timer_eq act_fields i) (simp add: demo3_def)
  note t = resolves_exactly_once [OF h1 h2 h3 h4]
  from t have "resolved_values demoDialog
        (ui_run [Reply ''r1'' [(''confirmed'', JBool True)], AbortFires 7]
           (ui_step (TimerFires demoDialog) demoAsk)) = [trigger_value (TimerFires demoDialog) demoDialog]"
    by blast
  then have a: "resolved_values demoDialog
        (ui_run [Reply ''r1'' [(''confirmed'', JBool True)], AbortFires 7]
           (ui_step (TimerFires demoDialog) demoAsk)) = [JBool False]"
    by (simp add: i)
  from t have "pendingExtensionRequests (ui_step (TimerFires demoDialog) demoAsk) (d_id demoDialog) = None"
    by blast
  then have b: "pendingExtensionRequests (ui_step (TimerFires demoDialog) demoAsk) ''r1'' = None"
    by (simp only: i)
  have l0: "\<forall>l \<in> set (listeners (ui_step (TimerFires demoDialog) demoAsk)). fst l \<noteq> 7"
    by (simp only: l) simp
  with t have "resolutions (ui_step (AbortFires 7) (ui_step (TimerFires demoDialog) demoAsk))
       = resolutions (ui_step (TimerFires demoDialog) demoAsk)"
    by blast
  then have c: "resolutions (ui_step (AbortFires 7) (ui_step (TimerFires demoDialog) demoAsk))
       = [(demoDialog, JBool False)]"
    by (simp only: r)
  from h1 h2 h3 h4 a b l c show ?thesis by blast
qed

section \<open>The client and a stale state sync\<close>

lemma handleStateSync_guard:
  "truthy (sd_tabId data) \<Longrightarrow> sd_tabId data \<noteq> activeTabId st \<Longrightarrow> handleStateSync data st = st"
  by (simp add: handleStateSync_def)

lemma state_sync_always_applied:
  "truthy (sd_tabId data) \<Longrightarrow>
   handleServerEvent (EvStateSync data) st =
     st\<lparr>activeTabId := sd_tabId data,
        items := (case sd_messages data of None \<Rightarrow> [] | Some ms \<Rightarrow> fold applyMessage ms []),
        currentAssistantItem := None,
        streaming := (case sd_streaming data of Some b \<Rightarrow> b | None \<Rightarrow> False),
        scrollToBottomOnSync := False\<rparr>"
  by (simp add: handleServerEvent_def handleStateSync_def)

text \<open>
  Claim C5 does not hold of the client. The user clicks tab B and then tab C, so the client
  intends to view C; the sync that the server made for B arrives. \<^verbatim>\<open>handleServerEvent\<close>
  first overwrites \<^verbatim>\<open>activeTabId\<close> with the sync's tab, so the guard of
  \<^verbatim>\<open>handleStateSync\<close> compares the tab with itself: the client shows B's conversation
  and takes B as its active tab.
\<close>

theorem stale_state_sync_is_applied:
  "activeTabId (clickTab ''C'' (clickTab ''B'' demoClient)) = Some ''C''
   \<and> sd_tabId staleSync = Some ''B''
   \<and> handleServerEvent (EvStateSync staleSync) (clickTab ''C'' (clickTab ''B'' demoClient))
       = demoClient\<lparr>activeTabId := Some ''B'', items := [UserItem ''question in tab B'']\<rparr>"
  by (simp add: handleServerEvent_def handleStateSync_def clickTab_def demoClient_def staleSync_def
        truthy_def applyMessage_def userText_def)

end
